theory Spec2Isabelle
  imports Main "HOL-Library.Product_Lexorder" "HOL-Library.Code_Target_Nat"
begin

section \<open>Timestamps\<close>

text \<open>
  A timestamp as the database and pandas hold it: year, month, day, hour, minute, second
  and microsecond. The order is the lexicographic order of the seven fields, which is
  the chronological order.
\<close>

type_synonym timestamp = "nat \<times> nat \<times> nat \<times> nat \<times> nat \<times> nat \<times> nat"

section \<open>Python values\<close>

text \<open>
  The scripts move dynamically typed values around: the cells of a result frame, the
  content of a state file as \<open>json.loads\<close> delivers it, the watermark handed to the
  query. One datatype covers them. Dictionaries are association lists with string keys
  (the keys of a JSON document); \<open>PTime\<close> is a timestamp cell; \<open>PObj\<close> is any
  other object, named by its rendering (a \<open>Decimal\<close>), which \<open>json.dumps\<close> does not
  serialise. \<open>PNone\<close> also stands for the missing values \<open>NaN\<close> and \<open>NaT\<close> of a
  frame. Floating point numbers are left out.
\<close>

datatype pyval =
    PNone
  | PBool bool
  | PInt int
  | PStr string
  | PList "pyval list"
  | PTuple "pyval list"
  | PDict "(string \<times> pyval) list"
  | PTime timestamp
  | PObj string

text \<open>Python's truth value of an object, as \<open>if x\<close> and \<open>x and y\<close> test it.\<close>

fun truthy :: "pyval \<Rightarrow> bool" where
  "truthy PNone = False"
| "truthy (PBool b) = b"
| "truthy (PInt i) = (i \<noteq> 0)"
| "truthy (PStr s) = (s \<noteq> [])"
| "truthy (PList xs) = (xs \<noteq> [])"
| "truthy (PTuple xs) = (xs \<noteq> [])"
| "truthy (PDict kvs) = (kvs \<noteq> [])"
| "truthy (PTime t) = True"
| "truthy (PObj s) = True"

text \<open>\<open>isinstance(x, (dict, list, tuple))\<close>\<close>

fun is_composite :: "pyval \<Rightarrow> bool" where
  "is_composite (PList xs) = True"
| "is_composite (PTuple xs) = True"
| "is_composite (PDict kvs) = True"
| "is_composite v = False"

section \<open>Decimal rendering of numbers\<close>

definition digit_char :: "nat \<Rightarrow> char" where
  "digit_char d = char_of (48 + d)"

fun str_nat :: "nat \<Rightarrow> string" where
  "str_nat n = (if n < 10 then [digit_char n] else str_nat (n div 10) @ [digit_char (n mod 10)])"

declare str_nat.simps [simp del]

definition str_int :: "int \<Rightarrow> string" where
  "str_int i = (if i < 0 then CHR ''-'' # str_nat (nat (- i)) else str_nat (nat i))"

section \<open>Column de-duplication (build\_quotes.py, \_make\_unique\_columns)\<close>

text \<open>
  The loop over \<open>cols\<close> with its two locals: the dictionary \<open>seen\<close> and the list
  \<open>out\<close>. A name not yet in \<open>seen\<close> is entered with count 0 and appended as it is;
  a name already there has its count incremented and is appended as
  \<open>f"{c}__{seen[c]}"\<close>.
\<close>

fun make_unique_loop :: "(string \<rightharpoonup> nat) \<Rightarrow> string list \<Rightarrow> string list \<Rightarrow> string list" where
  "make_unique_loop seen out [] = out"
| "make_unique_loop seen out (c # cs) =
     (case seen c of
        None \<Rightarrow> make_unique_loop (seen(c \<mapsto> 0)) (out @ [c]) cs
      | Some k \<Rightarrow> make_unique_loop (seen(c \<mapsto> k + 1)) (out @ [c @ ''__'' @ str_nat (k + 1)]) cs)"

definition make_unique_columns :: "string list \<Rightarrow> string list" where
  "make_unique_columns cols = make_unique_loop Map.empty [] cols"

section \<open>Rendering and reading a watermark\<close>

text \<open>
  \<open>mx.strftime("%Y-%m-%d %H:%M:%S")\<close>: the fields zero-padded to their width, the
  microseconds dropped. (A pandas timestamp has a year between 1677 and 2262, so the
  year is always four digits.)
\<close>

definition zpad :: "nat \<Rightarrow> nat \<Rightarrow> string" where
  "zpad w n = replicate (w - length (str_nat n)) CHR ''0'' @ str_nat n"

fun strftime :: "timestamp \<Rightarrow> string" where
  "strftime (y, mo, d, h, mi, s, us) =
     zpad 4 y @ ''-'' @ zpad 2 mo @ ''-'' @ zpad 2 d @ '' '' @
     zpad 2 h @ '':'' @ zpad 2 mi @ '':'' @ zpad 2 s"

text \<open>
  The timestamp a watermark string denotes: the cast the database applies to the bound
  parameter \<open>%(wm)s\<close> when it compares it with a timestamp column. Only the format the
  scripts write is read.
\<close>

definition digit_val :: "char \<Rightarrow> nat option" where
  "digit_val c = (let n = (of_char c :: nat) in if 48 \<le> n \<and> n \<le> 57 then Some (n - 48) else None)"

fun digits_val :: "nat \<Rightarrow> string \<Rightarrow> nat option" where
  "digits_val acc [] = Some acc"
| "digits_val acc (c # cs) =
     (case digit_val c of None \<Rightarrow> None | Some d \<Rightarrow> digits_val (10 * acc + d) cs)"

definition read_num :: "string \<Rightarrow> nat option" where
  "read_num s = (if s = [] then None else digits_val 0 s)"

definition parse_wm :: "string \<Rightarrow> timestamp option" where
  "parse_wm s =
     (if length s = 19 \<and> s ! 4 = CHR ''-'' \<and> s ! 7 = CHR ''-'' \<and> s ! 10 = CHR '' ''
         \<and> s ! 13 = CHR '':'' \<and> s ! 16 = CHR '':''
      then (case (read_num (take 4 s), read_num (take 2 (drop 5 s)), read_num (take 2 (drop 8 s)),
                  read_num (take 2 (drop 11 s)), read_num (take 2 (drop 14 s)),
                  read_num (take 2 (drop 17 s))) of
              (Some y, Some mo, Some d, Some h, Some mi, Some sec) \<Rightarrow> Some (y, mo, d, h, mi, sec, 0)
            | _ \<Rightarrow> None)
      else None)"

text \<open>
  The fields of a timestamp are in range, as those of a \<open>datetime\<close> that the database
  driver delivers are: a year from 1 to 9999, a month, a day, and a time of the day.
\<close>

fun valid_ts :: "timestamp \<Rightarrow> bool" where
  "valid_ts (y, mo, d, h, mi, s, us) \<longleftrightarrow>
     1 \<le> y \<and> y < 10000 \<and> 1 \<le> mo \<and> mo \<le> 12 \<and> 1 \<le> d \<and> d \<le> 31
     \<and> h < 24 \<and> mi < 60 \<and> s < 60 \<and> us < 1000000"

text \<open>
  The timestamps pandas can hold: nanoseconds since 1970 in 64 bits, which is from
  1677-09-21 00:12:43.145224193 to 2262-04-11 23:47:16.854775807; to the microsecond,
  the first and the last timestamp inside are these.
\<close>

definition ts_min :: timestamp where
  "ts_min = (1677, 9, 21, 0, 12, 43, 145225)"

definition ts_max :: timestamp where
  "ts_max = (2262, 4, 11, 23, 47, 16, 854775)"

definition in_bounds :: "timestamp \<Rightarrow> bool" where
  "in_bounds t \<longleftrightarrow> ts_min \<le> t \<and> t \<le> ts_max"

text \<open>A timestamp cut to the second.\<close>

fun trunc_second :: "timestamp \<Rightarrow> timestamp" where
  "trunc_second (y, mo, d, h, mi, s, us) = (y, mo, d, h, mi, s, 0)"

declare strftime.simps [simp del] valid_ts.simps [simp del] trunc_second.simps [simp del]

section \<open>Result frames\<close>

text \<open>
  A frame is the ordered list of its columns, each a label with its cells; every column
  has as many cells as the frame has rows. Labels may repeat, as in the result of a
  query whose select list gives one alias twice.
\<close>

type_synonym frame = "(string \<times> pyval list) list"

definition df_columns :: "frame \<Rightarrow> string list" where
  "df_columns df = map fst df"

text \<open>\<open>len(df)\<close>\<close>

definition df_len :: "frame \<Rightarrow> nat" where
  "df_len df = (case df of [] \<Rightarrow> 0 | (c, cells) # rest \<Rightarrow> length cells)"

text \<open>\<open>df.empty\<close>: no columns or no rows.\<close>

definition df_empty :: "frame \<Rightarrow> bool" where
  "df_empty df \<longleftrightarrow> df = [] \<or> df_len df = 0"

text \<open>Exceptions, by class, with the message where the source gives one.\<close>

datatype exn =
    ValueError string
  | AttributeError
  | TypeError
  | RuntimeError string
  | UnboundLocalError string
  | DatabaseError string
  | OSError string
  | PermissionError
  | OutOfBoundsDatetime

text \<open>\<open>isna\<close> of a cell.\<close>

definition isna :: "pyval \<Rightarrow> bool" where
  "isna v \<longleftrightarrow> v = PNone"

text \<open>
  \<open>pd.to_datetime(df[c])\<close> on what a timestamp column holds: timestamps and missing
  values. A timestamp outside the range of pandas makes it raise
  \<open>OutOfBoundsDatetime\<close>. Any other cell is taken as a failed conversion. The caller
  catches both.
\<close>

fun to_datetime :: "pyval list \<Rightarrow> exn + timestamp option list" where
  "to_datetime [] = Inr []"
| "to_datetime (v # vs) =
     (case to_datetime vs of
        Inl e \<Rightarrow> Inl e
      | Inr ts \<Rightarrow>
          (case v of
             PNone \<Rightarrow> Inr (None # ts)
           | PTime t \<Rightarrow> (if in_bounds t then Inr (Some t # ts) else Inl OutOfBoundsDatetime)
           | _ \<Rightarrow> Inl TypeError))"

text \<open>\<open>Series.max()\<close>: the greatest value that is not missing, \<open>NaT\<close> when there is none.\<close>

fun series_max :: "timestamp option list \<Rightarrow> timestamp option" where
  "series_max [] = None"
| "series_max (None # ts) = series_max ts"
| "series_max (Some t # ts) = (case series_max ts of None \<Rightarrow> Some t | Some m \<Rightarrow> Some (max t m))"

text \<open>
  \<open>max_timestamp(df, cols)\<close> (build\_facts.py and build\_quotes.py). The test
  \<open>c in df.columns and not df[c].isna().all()\<close> is outside the \<open>try\<close>: with a label
  that occurs twice \<open>df[c]\<close> is a frame, \<open>isna().all()\<close> a series of several truth
  values, and \<open>not\<close> of it raises \<open>ValueError\<close>.
\<close>

fun max_timestamp :: "frame \<Rightarrow> string list \<Rightarrow> exn + string option" where
  "max_timestamp df [] = Inr None"
| "max_timestamp df (c # cols) =
     (if c \<in> set (df_columns df) then
        (if 1 < count_list (df_columns df) c
         then Inl (ValueError ''The truth value of a Series is ambiguous'')
         else (case map_of df c of
                 None \<Rightarrow> max_timestamp df cols
               | Some cells \<Rightarrow>
                   (if \<not> list_all isna cells then
                      (case to_datetime cells of
                         Inl e \<Rightarrow> max_timestamp df cols
                       | Inr ts \<Rightarrow>
                           (case series_max ts of
                              None \<Rightarrow> max_timestamp df cols
                            | Some mx \<Rightarrow> Inr (Some (strftime mx))))
                    else max_timestamp df cols)))
      else max_timestamp df cols)"

section \<open>The incremental predicate\<close>

text \<open>
  \<open>build_where_incremental(column_sql, incr_enabled, last_wm)\<close> of build\_quotes.py;
  the result is \<open>(where_clause, params, incr_used)\<close>.
\<close>

type_synonym params = "(string \<times> pyval) list option"

definition build_where_incremental :: "string \<Rightarrow> bool \<Rightarrow> pyval \<Rightarrow> string \<times> params \<times> bool" where
  "build_where_incremental column_sql incr_enabled last_wm =
     (if incr_enabled \<and> truthy last_wm
      then (''WHERE '' @ column_sql @ '' > %(wm)s'', Some [(''wm'', last_wm)], True)
      else if incr_enabled \<and> \<not> truthy last_wm
      then ([], None, False)
      else ([], None, False))"

text \<open>
  \<open>build_where_incremental(fact, column, incr_enabled, last_wm)\<close> of build\_facts.py,
  which takes the name of the fact as well and does not use it.
\<close>

definition build_where_incremental_facts ::
    "string \<Rightarrow> string \<Rightarrow> bool \<Rightarrow> pyval \<Rightarrow> string \<times> params \<times> bool" where
  "build_where_incremental_facts fact_name column incr_enabled last_wm =
     (if incr_enabled \<and> truthy last_wm
      then (''WHERE '' @ column @ '' > %(wm)s'', Some [(''wm'', last_wm)], True)
      else if incr_enabled \<and> \<not> truthy last_wm
      then ([], None, False)
      else ([], None, False))"

text \<open>
  What the database makes of such a clause for one row. The clause is read from its
  text, \<open>WHERE <expression> <operator> %(<name>)s\<close>: the last word is the placeholder
  of a parameter, the word before it the operator, and what stands between \<open>WHERE\<close>
  and the operator is the expression.
\<close>

definition last_word :: "string \<Rightarrow> string \<times> string" where
  "last_word s =
     (rev (drop 1 (dropWhile (\<lambda>c. c \<noteq> CHR '' '') (rev s))),
      rev (takeWhile (\<lambda>c. c \<noteq> CHR '' '') (rev s)))"

definition clause_parts :: "string \<Rightarrow> (string \<times> string \<times> string) option" where
  "clause_parts clause =
     (case last_word clause of
        (r1, ph) \<Rightarrow>
          (case last_word r1 of
             (r2, opr) \<Rightarrow>
               (if take 6 r2 = ''WHERE '' \<and> 4 \<le> length ph \<and> take 2 ph = ''%(''
                   \<and> drop (length ph - 2) ph = '')s''
                then Some (drop 6 r2, opr, take (length ph - 4) (drop 2 ph))
                else None)))"

text \<open>The comparison of two timestamps that an operator of SQL makes.\<close>

definition sql_compare :: "string \<Rightarrow> timestamp \<Rightarrow> timestamp \<Rightarrow> bool" where
  "sql_compare opr a b =
     (if opr = ''>'' then b < a
      else if opr = ''>='' then b \<le> a
      else if opr = ''<'' then a < b
      else if opr = ''<='' then a \<le> b
      else if opr = ''='' then a = b
      else False)"

text \<open>
  \<open>val\<close> gives the value an expression has in the row, \<open>None\<close> for \<open>NULL\<close>. With
  no clause every row passes. Otherwise the row passes when its value of the expression
  is not null and stands in the relation of the operator to the timestamp that the
  bound parameter denotes; a comparison with \<open>NULL\<close> does not hold.
\<close>

definition where_admits :: "string \<times> params \<times> bool \<Rightarrow> (string \<Rightarrow> timestamp option) \<Rightarrow> bool" where
  "where_admits w val =
     (case w of (clause, ps, used) \<Rightarrow>
        if clause = [] then True
        else (case clause_parts clause of
                None \<Rightarrow> False
              | Some (expr, opr, name) \<Rightarrow>
                  (case ps of
                     None \<Rightarrow> False
                   | Some kvs \<Rightarrow>
                       (case map_of kvs name of
                          Some (PStr wm) \<Rightarrow>
                            (case (parse_wm wm, val expr) of
                               (Some t0, Some t) \<Rightarrow> sql_compare opr t t0
                             | _ \<Rightarrow> False)
                        | _ \<Rightarrow> False))))"

section \<open>The watermark store\<close>

text \<open>
  One state file per fact, \<open>data/_state/<fact>.json\<close>. The content of a file is taken
  as what \<open>json.loads\<close> makes of it: a value, or no value when the text is not JSON (or
  cannot be read), where \<open>json.loads\<close> raises. A path may also be out of reach: the
  state directory cannot be searched, so that asking for the status of the path fails
  with \<open>PermissionError\<close>.
\<close>

datatype file_content = NoAccess | NotJson | Json pyval

type_synonym state_dir = "string \<rightharpoonup> file_content"

text \<open>
  \<open>p.exists()\<close>: \<open>Path.exists\<close> asks for the status of the path and answers
  \<open>False\<close> when the path is missing; any other error of the system is raised again.
\<close>

definition path_exists :: "state_dir \<Rightarrow> string \<Rightarrow> exn + bool" where
  "path_exists st fact_name =
     (case st fact_name of
        None \<Rightarrow> Inr False
      | Some NoAccess \<Rightarrow> Inl PermissionError
      | Some content \<Rightarrow> Inr True)"

text \<open>
  \<open>read_watermark(fact_name)\<close>: the test \<open>p.exists()\<close> stands before the \<open>try\<close>,
  so what it raises leaves the function; no file gives \<open>None\<close>; otherwise the body of
  the \<open>try\<close> runs, where \<open>json.loads\<close> raises on text that is not JSON and
  \<open>data.get\<close> raises \<open>AttributeError\<close> on a value that is no dictionary, and the
  \<open>except\<close> turns every exception into \<open>None\<close>.
\<close>

definition dict_get :: "(string \<times> pyval) list \<Rightarrow> string \<Rightarrow> pyval" where
  "dict_get kvs k = (case map_of kvs k of None \<Rightarrow> PNone | Some v \<Rightarrow> v)"

definition read_watermark_body :: "file_content \<Rightarrow> exn + pyval" where
  "read_watermark_body content =
     (case content of
        NoAccess \<Rightarrow> Inl PermissionError
      | NotJson \<Rightarrow> Inl (ValueError ''JSONDecodeError'')
      | Json (PDict kvs) \<Rightarrow> Inr (dict_get kvs ''watermark'')
      | Json v \<Rightarrow> Inl AttributeError)"

definition read_watermark :: "state_dir \<Rightarrow> string \<Rightarrow> exn + pyval" where
  "read_watermark st fact_name =
     (case path_exists st fact_name of
        Inl x \<Rightarrow> Inl x
      | Inr False \<Rightarrow> Inr PNone
      | Inr True \<Rightarrow>
          (case st fact_name of
             None \<Rightarrow> Inr PNone
           | Some content \<Rightarrow>
               (case read_watermark_body content of
                  Inl e \<Rightarrow> Inr PNone
                | Inr v \<Rightarrow> Inr v)))"

text \<open>\<open>write_watermark(fact_name, wm)\<close> writes \<open>{"watermark": wm}\<close>.\<close>

definition write_watermark :: "state_dir \<Rightarrow> string \<Rightarrow> string \<Rightarrow> state_dir" where
  "write_watermark st fact_name wm = st(fact_name \<mapsto> Json (PDict [(''watermark'', PStr wm)]))"

section \<open>Serialising composite cells\<close>

text \<open>
  \<open>json.dumps(x, ensure_ascii=False)\<close> with the default separators. In a string the
  quote, the backslash and the control characters are escaped and every other character
  is written as it is; a tuple is written as an array, like a list; an object that
  is none of the JSON types makes \<open>json.dumps\<close> raise \<open>TypeError\<close>.
\<close>

definition hex_digit :: "nat \<Rightarrow> char" where
  "hex_digit d = (if d < 10 then char_of (48 + d) else char_of (87 + d))"

definition escape_char :: "char \<Rightarrow> string" where
  "escape_char c =
     (if c = CHR 0x22 then [CHR 0x5C, CHR 0x22]
      else if c = CHR 0x5C then [CHR 0x5C, CHR 0x5C]
      else if c = CHR 0x0A then [CHR 0x5C, CHR ''n'']
      else if c = CHR 0x0D then [CHR 0x5C, CHR ''r'']
      else if c = CHR 0x09 then [CHR 0x5C, CHR ''t'']
      else if c = CHR 0x08 then [CHR 0x5C, CHR ''b'']
      else if c = CHR 0x0C then [CHR 0x5C, CHR ''f'']
      else if (of_char c :: nat) < 32
      then [CHR 0x5C, CHR ''u'', CHR ''0'', CHR ''0'',
            hex_digit ((of_char c :: nat) div 16), hex_digit ((of_char c :: nat) mod 16)]
      else [c])"

definition json_string :: "string \<Rightarrow> string" where
  "json_string s = CHR 0x22 # concat (map escape_char s) @ [CHR 0x22]"

text \<open>\<open>sep.join(items)\<close>\<close>

fun str_join :: "string \<Rightarrow> string list \<Rightarrow> string" where
  "str_join sep [] = []"
| "str_join sep [x] = x"
| "str_join sep (x # y # ys) = x @ sep @ str_join sep (y # ys)"

fun serializable :: "pyval \<Rightarrow> bool" where
  "serializable PNone = True"
| "serializable (PBool b) = True"
| "serializable (PInt i) = True"
| "serializable (PStr s) = True"
| "serializable (PList xs) = (\<forall>x \<in> set xs. serializable x)"
| "serializable (PTuple xs) = (\<forall>x \<in> set xs. serializable x)"
| "serializable (PDict kvs) = (\<forall>x \<in> set (map snd kvs). serializable x)"
| "serializable (PTime t) = False"
| "serializable (PObj s) = False"

fun json_render :: "pyval \<Rightarrow> string" where
  "json_render PNone = ''null''"
| "json_render (PBool b) = (if b then ''true'' else ''false'')"
| "json_render (PInt i) = str_int i"
| "json_render (PStr s) = json_string s"
| "json_render (PList xs) = ''['' @ str_join '', '' (map json_render xs) @ '']''"
| "json_render (PTuple xs) = ''['' @ str_join '', '' (map json_render xs) @ '']''"
| "json_render (PDict kvs) =
     ''{'' @ str_join '', '' (map (\<lambda>kv. json_string (fst kv) @ '': '' @ json_render (snd kv)) kvs) @ ''}''"
| "json_render (PTime t) = []"
| "json_render (PObj s) = []"

definition json_dumps :: "pyval \<Rightarrow> exn + string" where
  "json_dumps x = (if serializable x then Inr (json_render x) else Inl TypeError)"

text \<open>
  \<open>to_json_string(x)\<close>, the same function in the three scripts. The builtin \<open>str\<close>, used
  when \<open>json.dumps\<close> raises, is a parameter.
\<close>

definition to_json_string :: "(pyval \<Rightarrow> string) \<Rightarrow> pyval \<Rightarrow> pyval" where
  "to_json_string py_str x =
     (if is_composite x
      then (case json_dumps x of Inr s \<Rightarrow> PStr s | Inl e \<Rightarrow> PStr (py_str x))
      else x)"

text \<open>
  \<open>sanitize_dataframe(df)\<close>, the same loop in the three scripts. For a label that
  occurs twice \<open>df[col]\<close> is a frame, which has no attribute \<open>dtype\<close>. A column that
  holds a dictionary, a list or a tuple has the dtype \<open>object\<close>, so the test of the
  dtype adds nothing to the test of the sample and is left out.
\<close>

definition set_column :: "frame \<Rightarrow> string \<Rightarrow> pyval list \<Rightarrow> frame" where
  "set_column df col cells = map (\<lambda>(c, old). if c = col then (c, cells) else (c, old)) df"

definition sample :: "pyval list \<Rightarrow> pyval list" where
  "sample cells = take 10 (filter (\<lambda>v. \<not> isna v) cells)"

fun sanitize_loop :: "(pyval \<Rightarrow> string) \<Rightarrow> string list \<Rightarrow> frame \<Rightarrow> exn + frame" where
  "sanitize_loop py_str [] df = Inr df"
| "sanitize_loop py_str (col # cols) df =
     (if 1 < count_list (df_columns df) col then Inl AttributeError
      else (case map_of df col of
              None \<Rightarrow> sanitize_loop py_str cols df
            | Some cells \<Rightarrow>
                (if list_ex is_composite (sample cells)
                 then sanitize_loop py_str cols (set_column df col (map (to_json_string py_str) cells))
                 else sanitize_loop py_str cols df)))"

definition sanitize_dataframe :: "(pyval \<Rightarrow> string) \<Rightarrow> frame \<Rightarrow> exn + frame" where
  "sanitize_dataframe py_str df = sanitize_loop py_str (df_columns df) df"

section \<open>Queries\<close>

text \<open>
  A query as the scripts put it together: the entries of the select list, the table
  after \<open>FROM\<close>, the joins, the where clause (or the token that stands for it until
  \<open>main\<close> fills it in) and the expression after \<open>ORDER BY\<close>. A join is either a plain
  \<open>LEFT JOIN table alias ON condition\<close> or the pick of one child row per parent:

  \<^verbatim>\<open>LEFT JOIN (
    SELECT a1.* FROM table a1
    JOIN (SELECT key AS k, MIN(id) AS min_id FROM table GROUP BY key) amin
      ON amin.k = a1.key AND amin.min_id = a1.id
  ) alias ON alias.key = parent\<close>
\<close>

datatype join =
    LeftJoinOn string string string
  | MinIdLeftJoin (j_table: string) (j_alias: string) (j_key: string) (j_id: string) (j_parent: string)

record query =
  q_select :: "string list"
  q_from :: string
  q_joins :: "join list"
  q_where :: string
  q_order :: string

text \<open>The two templates of build\_facts.py, with the where clause in its slot.\<close>

definition Q_FACT_VENTAS_LINEA_BASE :: "string \<Rightarrow> query" where
  "Q_FACT_VENTAS_LINEA_BASE where_clause =
     \<lparr> q_select =
         [''COALESCE(o.id, li.order_id) AS order_id'',
          ''li.line_item_id'',
          ''li.product_id'',
          ''li.sku'',
          ''li.product_unit'',
          ''li.quantity'',
          ''li.price AS precio_unitario'',
          ''COALESCE(li.row_total, (li.quantity * li.price)) AS subtotal_linea'',
          ''li.discount_amount AS descuento_linea'',
          ''li.tax_amount AS impuestos_linea'',
          ''COALESCE(o.currency, li.currency) AS currency_code'',
          ''o.created_at AS fecha_creacion_pedido'',
          ''o.updated_at AS fecha_actualizacion_pedido'',
          ''o.website_id'',
          ''o.customer_id'',
          ''o.user_owner_id AS usuario_owner_id'',
          ''COALESCE(o.internal_status_name, 'Sin estado') AS estado_pedido''],
       q_from = ''oro_order_line_item_granular li'',
       q_joins = [LeftJoinOn ''oro_order_granular'' ''o'' ''o.id = li.order_id''],
       q_where = where_clause,
       q_order = ''COALESCE(o.updated_at, o.created_at, '1900-01-01'::timestamp)'' \<rparr>"

definition Q_FACT_PAGO_BASE :: "string \<Rightarrow> query" where
  "Q_FACT_PAGO_BASE where_clause =
     \<lparr> q_select =
         [''t.transaction_id'',
          ''t.order_id'',
          ''t.amount AS monto'',
          ''t.currency AS currency_code'',
          ''t.action AS tipo_accion'',
          ''t.payment_method'',
          ''t.status AS status_raw'',
          ''t.successful AS es_exitoso'',
          ''t.created_at'',
          ''t.updated_at''],
       q_from = ''oro_payment_transaction_granular t'',
       q_joins = [],
       q_where = where_clause,
       q_order = ''COALESCE(t.updated_at, t.created_at, '1900-01-01'::timestamp)'' \<rparr>"

section \<open>Configuration, environment and the files of a run\<close>

text \<open>The options of \<open>settings.yaml\<close> that the fact scripts read.\<close>

record config =
  exportar_parquet :: bool
  exportar_csv :: bool
  incr_order_lines :: bool
  incr_payments :: bool
  incr_quotes :: bool

text \<open>
  What a run meets outside the scripts: the result of a query on the connection or the
  exception \<open>pd.read_sql\<close> raises; the catalog of the database, which gives the ordered
  columns of a table of a schema when the table exists; whether writing a frame as
  parquet or csv fails; and the builtin \<open>str\<close>. The connection is taken as open, and
  writing a state file as succeeding.
\<close>

record env =
  read_sql :: "query \<Rightarrow> params \<Rightarrow> exn + frame"
  catalog :: "string \<times> string \<rightharpoonup> string list"
  parquet_error :: "string \<Rightarrow> frame \<Rightarrow> exn option"
  csv_error :: "string \<Rightarrow> frame \<Rightarrow> exn option"
  py_str :: "pyval \<Rightarrow> string"

text \<open>
  The lines of the log, by what they report: the start of a fact with its incremental
  flag and last watermark, the size of a result, a result without rows, a file written,
  a new watermark, the exception of a fact, the end of the run.
\<close>

datatype log_line =
    LogFact string bool pyval
  | LogRows nat nat
  | LogNoRows string
  | LogParquet string
  | LogCsv string
  | LogNewWatermark string string
  | LogError string exn
  | LogDone

datatype log_level = INFO | WARNING | ERROR

text \<open>\<open>logging.info\<close>, \<open>logging.warning\<close> or \<open>logging.error\<close>, as the source calls them.\<close>

fun level :: "log_line \<Rightarrow> log_level" where
  "level (LogNoRows name) = WARNING"
| "level (LogError name x) = ERROR"
| "level l = INFO"

text \<open>
  The files a run reads and writes, each directory by the name of the fact: the state
  files, the parquet part files, the csv mirrors; and the log.
\<close>

record world =
  state :: state_dir
  parquet :: "string \<rightharpoonup> frame"
  csv :: "string \<rightharpoonup> frame"
  log :: "log_line list"

definition logging :: "log_line \<Rightarrow> world \<Rightarrow> world" where
  "logging l w = w\<lparr>log := log w @ [l]\<rparr>"

section \<open>The table exporter\<close>

text \<open>
  The parquet branch of \<open>export_table\<close>: the old part file is unlinked, then the frame
  is written; a write that fails leaves no part file.
\<close>

definition write_parquet :: "env \<Rightarrow> string \<Rightarrow> frame \<Rightarrow> world \<Rightarrow> world \<times> exn option" where
  "write_parquet e name df w =
     (let w1 = w\<lparr>parquet := (parquet w)(name := None)\<rparr> in
      case parquet_error e name df of
        Some x \<Rightarrow> (w1, Some x)
      | None \<Rightarrow> (logging (LogParquet name) (w1\<lparr>parquet := (parquet w1)(name \<mapsto> df)\<rparr>), None))"

definition write_csv :: "env \<Rightarrow> string \<Rightarrow> frame \<Rightarrow> world \<Rightarrow> world \<times> exn option" where
  "write_csv e name df w =
     (case csv_error e name df of
        Some x \<Rightarrow> (w, Some x)
      | None \<Rightarrow> (logging (LogCsv name) (w\<lparr>csv := (csv w)(name \<mapsto> df)\<rparr>), None))"

text \<open>The two sinks, after the frame has been sanitized.\<close>

definition write_files :: "config \<Rightarrow> env \<Rightarrow> string \<Rightarrow> frame \<Rightarrow> world \<Rightarrow> world \<times> exn option" where
  "write_files cfg e name df w =
     (case (if exportar_parquet cfg then write_parquet e name df w else (w, None)) of
        (w1, Some x) \<Rightarrow> (w1, Some x)
      | (w1, None) \<Rightarrow> (if exportar_csv cfg then write_csv e name df w1 else (w1, None)))"

text \<open>
  \<open>export_table(df, name)\<close> of build\_facts.py (and of build\_inventory\_snapshot.py).
  The sanitizer assigns into the frame it is given, so the caller's frame is the
  sanitized one afterwards: the result is the world, and the exception raised or the
  caller's frame.
\<close>

definition export_table :: "config \<Rightarrow> env \<Rightarrow> frame \<Rightarrow> string \<Rightarrow> world \<Rightarrow> world \<times> (exn + frame)" where
  "export_table cfg e df name w =
     (if df_empty df then (logging (LogNoRows name) w, Inr df)
      else (case sanitize_dataframe (py_str e) df of
              Inl x \<Rightarrow> (w, Inl x)
            | Inr df1 \<Rightarrow>
                (case write_files cfg e name df1 w of
                   (w1, Some x) \<Rightarrow> (w1, Inl x)
                 | (w1, None) \<Rightarrow> (w1, Inr df1))))"

text \<open>
  \<open>export_table(df, name)\<close> of build\_quotes.py, which works on a copy of the frame
  whose labels have gone through \<open>_make_unique_columns\<close>; the caller's frame stays as
  it was.
\<close>

definition rename_columns :: "frame \<Rightarrow> string list \<Rightarrow> frame" where
  "rename_columns df names = map (\<lambda>(n, (c, cells)). (n, cells)) (zip names df)"

definition export_table_quotes :: "config \<Rightarrow> env \<Rightarrow> frame \<Rightarrow> string \<Rightarrow> world \<Rightarrow> world \<times> (exn + frame)" where
  "export_table_quotes cfg e df name w =
     (if df_empty df then (logging (LogNoRows name) w, Inr df)
      else (case sanitize_dataframe (py_str e)
                   (rename_columns df (make_unique_columns (df_columns df))) of
              Inl x \<Rightarrow> (w, Inl x)
            | Inr df1 \<Rightarrow>
                (case write_files cfg e name df1 w of
                   (w1, Some x) \<Rightarrow> (w1, Inl x)
                 | (w1, None) \<Rightarrow> (w1, Inr df))))"

section \<open>The per-target cycle\<close>

text \<open>
  \<open>if wm and incr_enabled: write_watermark(fact_name, wm)\<close>, with the line of the log.
\<close>

definition commit_watermark :: "string \<Rightarrow> bool \<Rightarrow> string option \<Rightarrow> world \<Rightarrow> world" where
  "commit_watermark fact_name incr_enabled wm w =
     (case wm of
        None \<Rightarrow> w
      | Some s \<Rightarrow>
          (if s \<noteq> [] \<and> incr_enabled
           then logging (LogNewWatermark fact_name s)
                  (w\<lparr>state := write_watermark (state w) fact_name s\<rparr>)
           else w))"

text \<open>
  The body of the \<open>try\<close> of one fact in \<open>main\<close>, the same in build\_facts.py and
  build\_quotes.py up to the exporter: run the query, export, take the new watermark
  from the frame, and write it when there is one and incremental mode is on. The result
  is the world and the exception the body raised, if any.
\<close>

definition try_fact ::
    "(frame \<Rightarrow> string \<Rightarrow> world \<Rightarrow> world \<times> (exn + frame)) \<Rightarrow> env \<Rightarrow> string \<Rightarrow> bool \<Rightarrow> query
      \<Rightarrow> params \<Rightarrow> string list \<Rightarrow> world \<Rightarrow> world \<times> exn option" where
  "try_fact export e fact_name incr_enabled q ps ts_cols w =
     (case read_sql e q ps of
        Inl x \<Rightarrow> (w, Some x)
      | Inr df \<Rightarrow>
          (case export df fact_name (logging (LogRows (df_len df) (length (df_columns df))) w) of
             (w2, Inl x) \<Rightarrow> (w2, Some x)
           | (w2, Inr df1) \<Rightarrow>
               (case max_timestamp df1 ts_cols of
                  Inl x \<Rightarrow> (w2, Some x)
                | Inr wm \<Rightarrow> (commit_watermark fact_name incr_enabled wm w2, None))))"

text \<open>\<open>except Exception as e: logging.error(...)\<close>\<close>

definition catch_and_log :: "string \<Rightarrow> world \<times> exn option \<Rightarrow> world" where
  "catch_and_log fact_name r =
     (case r of
        (w, None) \<Rightarrow> w
      | (w, Some x) \<Rightarrow> logging (LogError fact_name x) w)"

text \<open>
  One fact of build\_facts.py: read the watermark, build the predicate, fill the
  template, log, run the body of the \<open>try\<close>, and log the exception the \<open>except\<close>
  catches. Reading the watermark stands before the \<open>try\<close>: an exception it raises
  leaves the block, and \<open>main\<close> with it. The result is the world and that exception,
  if any.
\<close>

definition run_fact ::
    "config \<Rightarrow> env \<Rightarrow> string \<Rightarrow> (string \<Rightarrow> query) \<Rightarrow> string \<Rightarrow> bool \<Rightarrow> string list \<Rightarrow> world
      \<Rightarrow> world \<times> exn option" where
  "run_fact cfg e fact_name base column incr_enabled ts_cols w =
     (case read_watermark (state w) fact_name of
        Inl x \<Rightarrow> (w, Some x)
      | Inr last_wm \<Rightarrow>
          (case build_where_incremental_facts fact_name column incr_enabled last_wm of
             (where_clause, ps, used_incr) \<Rightarrow>
               (catch_and_log fact_name
                  (try_fact (export_table cfg e) e fact_name incr_enabled (base where_clause) ps ts_cols
                     (logging (LogFact fact_name incr_enabled last_wm) w)),
                None)))"

text \<open>
  \<open>main\<close> of build\_facts.py: the two facts, one after the other, and the closing
  line of the log.
\<close>

definition main_facts :: "config \<Rightarrow> env \<Rightarrow> world \<Rightarrow> world \<times> exn option" where
  "main_facts cfg e w =
     (case run_fact cfg e ''fact_ventas_linea'' Q_FACT_VENTAS_LINEA_BASE ''o.updated_at''
             (incr_order_lines cfg)
             [''fecha_actualizacion_pedido'', ''fecha_creacion_pedido''] w of
        (w1, Some x) \<Rightarrow> (w1, Some x)
      | (w1, None) \<Rightarrow>
          (case run_fact cfg e ''fact_pago'' Q_FACT_PAGO_BASE ''COALESCE(t.updated_at, t.created_at)''
                  (incr_payments cfg)
                  [''updated_at'', ''created_at''] w1 of
             (w2, Some x) \<Rightarrow> (w2, Some x)
           | (w2, None) \<Rightarrow> (logging LogDone w2, None)))"

section \<open>The schema prober and the query builders of build\_quotes.py\<close>

definition table_exists :: "env \<Rightarrow> string \<Rightarrow> string \<Rightarrow> bool" where
  "table_exists e schema table \<longleftrightarrow> catalog e (schema, table) \<noteq> None"

definition list_columns :: "env \<Rightarrow> string \<Rightarrow> string \<Rightarrow> string list" where
  "list_columns e schema table = (case catalog e (schema, table) of None \<Rightarrow> [] | Some cs \<Rightarrow> cs)"

text \<open>\<open>pick\<close>: the first candidate that is a column, or \<open>None\<close>.\<close>

fun pick :: "string list \<Rightarrow> string list \<Rightarrow> string option" where
  "pick colnames [] = None"
| "pick colnames (c # cands) = (if c \<in> set colnames then Some c else pick colnames cands)"

text \<open>\<open>a or b\<close> on two optional names, and an optional name inside an f-string.\<close>

definition or_else :: "string option \<Rightarrow> string option \<Rightarrow> string option" where
  "or_else a b = (case a of Some x \<Rightarrow> Some x | None \<Rightarrow> b)"

definition fmt :: "string option \<Rightarrow> string" where
  "fmt a = (case a of Some x \<Rightarrow> x | None \<Rightarrow> ''None'')"

text \<open>\<open>build_query_fact_cotizacion(conn)\<close>: the header of a quote.\<close>

definition build_query_fact_cotizacion :: "env \<Rightarrow> exn + query" where
  "build_query_fact_cotizacion e =
     (if \<not> table_exists e ''public'' ''oro_sale_quote''
      then Inl (RuntimeError ''No existe public.oro_sale_quote'')
      else
        (let cols = list_columns e ''public'' ''oro_sale_quote'';
             c_id = pick cols [''id''];
             c_cust = pick cols [''customer_id''];
             c_custusr = pick cols [''customer_user_id''];
             c_web = pick cols [''website_id''];
             c_po = pick cols [''po_number''];
             c_curr = pick cols [''currency'', ''base_currency'', ''subtotal_currency'', ''total_currency''];
             c_subtot = pick cols [''subtotal'', ''subtotal_value'', ''base_subtotal_value''];
             c_total = pick cols [''total'', ''total_value'', ''base_total_value''];
             c_created = pick cols [''created_at'', ''createdat''];
             c_updated = pick cols [''updated_at'', ''updatedat''];
             c_status = pick cols [''internal_status_name'', ''status'', ''status_name''];
             sel =
               [(case c_id of Some c \<Rightarrow> c @ '' AS quote_id'' | None \<Rightarrow> ''NULL::bigint AS quote_id''),
                (case c_cust of Some c \<Rightarrow> c @ '' AS customer_id'' | None \<Rightarrow> ''NULL::bigint AS customer_id''),
                (case c_custusr of Some c \<Rightarrow> c @ '' AS customer_user_id''
                 | None \<Rightarrow> ''NULL::bigint AS customer_user_id''),
                (case c_web of Some c \<Rightarrow> c @ '' AS website_id'' | None \<Rightarrow> ''NULL::bigint AS website_id''),
                (case c_po of Some c \<Rightarrow> c @ '' AS po_number'' | None \<Rightarrow> ''NULL::text AS po_number''),
                (case c_curr of Some c \<Rightarrow> c @ '' AS currency_code'' | None \<Rightarrow> ''NULL::text AS currency_code''),
                (case c_subtot of Some c \<Rightarrow> c @ '' AS subtotal'' | None \<Rightarrow> ''NULL::numeric AS subtotal''),
                (case c_total of Some c \<Rightarrow> c @ '' AS total'' | None \<Rightarrow> ''NULL::numeric AS total''),
                (case c_created of Some c \<Rightarrow> c @ '' AS created_at'' | None \<Rightarrow> ''NULL::timestamp AS created_at''),
                (case c_updated of Some c \<Rightarrow> c @ '' AS updated_at'' | None \<Rightarrow> ''NULL::timestamp AS updated_at''),
                (case c_status of Some c \<Rightarrow> ''COALESCE('' @ c @ '', 'Sin estado') AS estado''
                 | None \<Rightarrow> '''Sin estado'::text AS estado'')];
             order_expr = or_else c_updated (or_else c_created c_id)
         in Inr \<lparr> q_select = sel,
                  q_from = ''public.oro_sale_quote'',
                  q_joins = [],
                  q_where = ''{where_clause}'',
                  q_order = fmt order_expr @ '' NULLS LAST'' \<rparr>))"

text \<open>
  The part of \<open>build_query_fact_cotizacion_linea\<close> on the request table: its joins, its
  entries of the select list, and the variable \<open>req_id\<close>, which is bound only when the
  table exists.
\<close>

definition request_part ::
    "env \<Rightarrow> string option \<Rightarrow> string option \<Rightarrow> join list \<times> string list \<times> string option option" where
  "request_part e qp_id qp_unit =
     (if table_exists e ''public'' ''oro_sale_quote_prod_request'' then
        (let cols_req = list_columns e ''public'' ''oro_sale_quote_prod_request'';
             req_id = pick cols_req [''id''];
             req_qp = pick cols_req [''quote_product_id''];
             req_qty = pick cols_req [''quantity'', ''qty''];
             req_unit = pick cols_req [''product_unit_code'', ''unit_code'', ''product_unit'']
         in case (req_qp, req_id) of
              (Some qp, Some rid) \<Rightarrow>
                ([MinIdLeftJoin ''public.oro_sale_quote_prod_request'' ''req'' qp rid (''qp.'' @ fmt qp_id)],
                 [''req.'' @ rid @ '' AS request_id'',
                  (case req_qty of Some c \<Rightarrow> ''req.'' @ c @ '' AS quantity''
                   | None \<Rightarrow> ''NULL::numeric AS quantity'')]
                 @ (case (req_unit, qp_unit) of
                      (Some u, None) \<Rightarrow> [''req.'' @ u @ '' AS product_unit'']
                    | _ \<Rightarrow> []),
                 Some req_id)
            | _ \<Rightarrow> ([], [''NULL::bigint AS request_id'', ''NULL::numeric AS quantity''], Some req_id))
      else ([], [''NULL::bigint AS request_id'', ''NULL::numeric AS quantity''], None))"

text \<open>
  The part on the offer table. Its join names \<open>req_id\<close>; when the request table does not
  exist that variable was never assigned and reading it raises \<open>UnboundLocalError\<close>.
\<close>

definition offer_part :: "env \<Rightarrow> string option option \<Rightarrow> exn + join list \<times> string list" where
  "offer_part e req_id =
     (if table_exists e ''public'' ''oro_sale_quote_prod_offer'' then
        (let cols_off = list_columns e ''public'' ''oro_sale_quote_prod_offer'';
             off_id = pick cols_off [''id''];
             off_req = pick cols_off [''quote_product_request_id''];
             off_price = pick cols_off [''price'', ''value'', ''amount''];
             off_curr = pick cols_off [''currency'', ''price_currency'']
         in case (off_req, off_id) of
              (Some oreq, Some oid) \<Rightarrow>
                (case req_id of
                   None \<Rightarrow> Inl (UnboundLocalError ''req_id'')
                 | Some rid \<Rightarrow>
                     Inr ([MinIdLeftJoin ''public.oro_sale_quote_prod_offer'' ''off'' oreq oid
                             (''req.'' @ fmt rid)],
                          [''off.'' @ oid @ '' AS offer_id'',
                           (case off_price of Some c \<Rightarrow> ''off.'' @ c @ '' AS price''
                            | None \<Rightarrow> ''NULL::numeric AS price''),
                           (case off_curr of Some c \<Rightarrow> ''off.'' @ c @ '' AS currency_code''
                            | None \<Rightarrow> ''NULL::text AS currency_code'')]))
            | _ \<Rightarrow> Inr ([], [''NULL::bigint AS offer_id'', ''NULL::numeric AS price'',
                             ''NULL::text AS currency_code'']))
      else Inr ([], [''NULL::bigint AS offer_id'', ''NULL::numeric AS price'',
                     ''NULL::text AS currency_code'']))"

text \<open>
  The part on the header table: the join to \<open>sq\<close>, the token for the where clause and
  the expression to order by.
\<close>

definition header_part :: "env \<Rightarrow> string option \<Rightarrow> string option \<Rightarrow> join list \<times> string \<times> string" where
  "header_part e qp_id qp_quote =
     (if table_exists e ''public'' ''oro_sale_quote'' then
        (let cols_sq = list_columns e ''public'' ''oro_sale_quote'';
             c_created = (if ''created_at'' \<in> set cols_sq then Some ''created_at'' else None);
             c_updated = (if ''updated_at'' \<in> set cols_sq then Some ''updated_at'' else None)
         in if c_updated \<noteq> None \<or> c_created \<noteq> None
            then ([LeftJoinOn ''public.oro_sale_quote'' ''sq''
                     (''sq.id = qp.'' @ fmt (or_else qp_quote (Some ''quote_id'')))],
                  ''{where_clause_ts}'',
                  ''COALESCE(sq.'' @ fmt (or_else c_updated c_created) @ '', sq.''
                     @ fmt (or_else c_created c_updated) @ '')'')
            else ([], [], ''qp.'' @ fmt (or_else qp_id (Some ''id''))))
      else ([], [], ''qp.'' @ fmt (or_else qp_id (Some ''id''))))"

text \<open>\<open>build_query_fact_cotizacion_linea(conn)\<close>: the lines of a quote.\<close>

definition build_query_fact_cotizacion_linea :: "env \<Rightarrow> exn + query" where
  "build_query_fact_cotizacion_linea e =
     (if \<not> table_exists e ''public'' ''oro_sale_quote_product''
      then Inl (RuntimeError ''No existe public.oro_sale_quote_product'')
      else
        (let cols_qp = list_columns e ''public'' ''oro_sale_quote_product'';
             qp_id = pick cols_qp [''id''];
             qp_quote = pick cols_qp [''quote_id''];
             qp_prod = pick cols_qp [''product_id''];
             qp_sku = pick cols_qp [''product_sku'', ''sku''];
             qp_unit = pick cols_qp [''product_unit_code'', ''unit_code'', ''product_unit''];
             base_sel =
               [(case qp_quote of Some c \<Rightarrow> ''qp.'' @ c @ '' AS quote_id'' | None \<Rightarrow> ''NULL::bigint AS quote_id''),
                (case qp_id of Some c \<Rightarrow> ''qp.'' @ c @ '' AS quote_product_id''
                 | None \<Rightarrow> ''ROW_NUMBER() OVER()::bigint AS quote_product_id''),
                (case qp_prod of Some c \<Rightarrow> ''qp.'' @ c @ '' AS product_id'' | None \<Rightarrow> ''NULL::bigint AS product_id''),
                (case qp_sku of Some c \<Rightarrow> ''qp.'' @ c @ '' AS sku'' | None \<Rightarrow> ''NULL::text AS sku''),
                (case qp_unit of Some c \<Rightarrow> ''qp.'' @ c @ '' AS product_unit''
                 | None \<Rightarrow> ''NULL::text AS product_unit'')]
         in case request_part e qp_id qp_unit of
              (req_joins, req_sel, req_id) \<Rightarrow>
                (case offer_part e req_id of
                   Inl x \<Rightarrow> Inl x
                 | Inr (off_joins, off_sel) \<Rightarrow>
                     (case header_part e qp_id qp_quote of
                        (sq_joins, where_clause, order_expr) \<Rightarrow>
                          Inr \<lparr> q_select = base_sel @ req_sel @ off_sel,
                                q_from = ''public.oro_sale_quote_product qp'',
                                q_joins = req_joins @ off_joins @ sq_joins,
                                q_where = where_clause,
                                q_order = order_expr @ '' NULLS LAST'' \<rparr>))))"

section \<open>The per-target cycles of build\_quotes.py\<close>

text \<open>The \<open>try\<close> of a fact of build\_quotes.py with its \<open>except\<close>, after the line of the log.\<close>

definition run_quote_fact ::
    "config \<Rightarrow> env \<Rightarrow> string \<Rightarrow> query \<Rightarrow> params \<Rightarrow> pyval \<Rightarrow> string list \<Rightarrow> world \<Rightarrow> world" where
  "run_quote_fact cfg e fact_name q ps last_wm ts_cols w =
     catch_and_log fact_name
       (try_fact (export_table_quotes cfg e) e fact_name (incr_quotes cfg) q ps ts_cols
          (logging (LogFact fact_name (incr_quotes cfg) last_wm) w))"

text \<open>
  The block of \<open>main\<close> for the header: the watermark is read and the query is built
  before the \<open>try\<close>, so an exception of either leaves \<open>main\<close>. The result is the
  world and that exception, if any.
\<close>

definition quote_header_block :: "config \<Rightarrow> env \<Rightarrow> world \<Rightarrow> world \<times> exn option" where
  "quote_header_block cfg e w =
     (case read_watermark (state w) ''fact_cotizacion'' of
        Inl x \<Rightarrow> (w, Some x)
      | Inr last_wm \<Rightarrow>
          (case build_query_fact_cotizacion e of
             Inl x \<Rightarrow> (w, Some x)
           | Inr q_head \<Rightarrow>
               (case build_where_incremental ''COALESCE(updated_at, created_at)'' (incr_quotes cfg) last_wm of
                  (where_clause, ps, used) \<Rightarrow>
                    (run_quote_fact cfg e ''fact_cotizacion'' (q_head\<lparr>q_where := where_clause\<rparr>) ps
                       last_wm [''updated_at'', ''created_at''] w,
                     None))))"

text \<open>
  The block for the lines. The predicate is put in only when the query holds the token
  \<open>{where_clause_ts}\<close>; otherwise the query runs as it is, without parameters.
\<close>

definition quote_lines_block :: "config \<Rightarrow> env \<Rightarrow> world \<Rightarrow> world \<times> exn option" where
  "quote_lines_block cfg e w =
     (case read_watermark (state w) ''fact_cotizacion_linea'' of
        Inl x \<Rightarrow> (w, Some x)
      | Inr last_wm \<Rightarrow>
          (case build_query_fact_cotizacion_linea e of
             Inl x \<Rightarrow> (w, Some x)
           | Inr q_lines \<Rightarrow>
               (case (if q_where q_lines = ''{where_clause_ts}''
                      then (case build_where_incremental ''COALESCE(sq.updated_at, sq.created_at)''
                                   (incr_quotes cfg) last_wm of
                              (where_clause, ps, used) \<Rightarrow> (q_lines\<lparr>q_where := where_clause\<rparr>, ps))
                      else (q_lines, None)) of
                  (q_lines_effective, ps) \<Rightarrow>
                    (run_quote_fact cfg e ''fact_cotizacion_linea'' q_lines_effective ps last_wm
                       [''sq.updated_at'', ''sq.created_at'', ''updated_at'', ''created_at''] w,
                     None))))"

text \<open>\<open>main\<close> of build\_quotes.py: the two blocks and the closing line of the log.\<close>

definition main_quotes :: "config \<Rightarrow> env \<Rightarrow> world \<Rightarrow> world \<times> exn option" where
  "main_quotes cfg e w =
     (case quote_header_block cfg e w of
        (w1, Some x) \<Rightarrow> (w1, Some x)
      | (w1, None) \<Rightarrow>
          (case quote_lines_block cfg e w1 of
             (w2, Some x) \<Rightarrow> (w2, Some x)
           | (w2, None) \<Rightarrow> (logging LogDone w2, None)))"

section \<open>The inventory snapshot (build\_inventory\_snapshot.py)\<close>

text \<open>
  \<open>pd.to_numeric(series, errors="coerce")\<close> cell by cell: a number stays, anything else
  becomes \<open>NaN\<close>. (Text that spells a number is not read.) The arithmetic on two numeric
  columns is cell by cell, \<open>NaN\<close> where an operand is.
\<close>

fun to_numeric :: "pyval \<Rightarrow> pyval" where
  "to_numeric (PInt i) = PInt i"
| "to_numeric v = PNone"


fun num_add :: "pyval \<Rightarrow> pyval \<Rightarrow> pyval" where
  "num_add (PInt a) (PInt b) = PInt (a + b)"
| "num_add a b = PNone"





section \<open>The meaning of the child pick\<close>

text \<open>
  The rows a \<open>MinIdLeftJoin\<close> produces, as the database evaluates it. A row gives each
  column its value, \<open>None\<close> for \<open>NULL\<close>; the columns of interest are integer keys. An
  equality with \<open>NULL\<close> on either side does not hold, \<open>MIN\<close> skips \<open>NULL\<close>, and
  \<open>GROUP BY\<close> makes one group of each value of the key.
\<close>

type_synonym row = "string \<Rightarrow> int option"

definition sql_eq :: "int option \<Rightarrow> int option \<Rightarrow> bool" where
  "sql_eq a b = (case (a, b) of (Some x, Some y) \<Rightarrow> x = y | _ \<Rightarrow> False)"

fun sql_min :: "int option list \<Rightarrow> int option" where
  "sql_min [] = None"
| "sql_min (None # vs) = sql_min vs"
| "sql_min (Some v # vs) = (case sql_min vs of None \<Rightarrow> Some v | Some m \<Rightarrow> Some (min v m))"

text \<open>\<open>SELECT key AS k, MIN(id) AS min_id FROM table GROUP BY key\<close>\<close>

definition group_min :: "string \<Rightarrow> string \<Rightarrow> row list \<Rightarrow> (int option \<times> int option) list" where
  "group_min key idc t =
     map (\<lambda>k. (k, sql_min (map (\<lambda>r. r idc) (filter (\<lambda>r. r key = k) t))))
       (remdups (map (\<lambda>r. r key) t))"

text \<open>
  \<open>SELECT a1.* FROM table a1 JOIN (...) amin ON amin.k = a1.key AND amin.min_id = a1.id\<close>:
  a row of the table once for each row of the grouped subquery that matches it.
\<close>

definition min_id_rows :: "string \<Rightarrow> string \<Rightarrow> row list \<Rightarrow> row list" where
  "min_id_rows key idc t =
     concat (map (\<lambda>a. map (\<lambda>m. a)
                        (filter (\<lambda>m. sql_eq (fst m) (a key) \<and> sql_eq (snd m) (a idc)) (group_min key idc t)))
                 t)"

text \<open>
  \<open>parents LEFT JOIN children ON children.key = parent\<close>: a parent with each of its
  matches, or once with no child when nothing matches.
\<close>

definition left_join_on :: "row list \<Rightarrow> string \<Rightarrow> string \<Rightarrow> row list \<Rightarrow> (row \<times> row option) list" where
  "left_join_on parents parent key children =
     concat (map (\<lambda>p. case filter (\<lambda>c. sql_eq (c key) (p parent)) children of
                          [] \<Rightarrow> [(p, None)]
                        | cs \<Rightarrow> map (\<lambda>c. (p, Some c)) cs)
                 parents)"

definition min_id_left_join :: "row list \<Rightarrow> string \<Rightarrow> string \<Rightarrow> string \<Rightarrow> row list \<Rightarrow> (row \<times> row option) list" where
  "min_id_left_join parents parent key idc t = left_join_on parents parent key (min_id_rows key idc t)"

section \<open>Reading JSON text\<close>

text \<open>
  \<open>json.loads\<close> on text whose numbers are integers and whose escapes \<open>\uXXXX\<close> stay
  below 128: whitespace is skipped between tokens, a string ends at the first quote
  that is not escaped and may hold no raw control character, an array is read as a
  list and an object as a dictionary. The fuel bounds the depth of the recursion; the
  length of the text is always enough.
\<close>

definition is_ws :: "char \<Rightarrow> bool" where
  "is_ws c \<longleftrightarrow> c = CHR '' '' \<or> c = CHR 0x0A \<or> c = CHR 0x0D \<or> c = CHR 0x09"

definition skip_ws :: "string \<Rightarrow> string" where
  "skip_ws s = dropWhile is_ws s"

definition hex_val :: "char \<Rightarrow> nat option" where
  "hex_val c =
     (let n = (of_char c :: nat) in
      if 48 \<le> n \<and> n \<le> 57 then Some (n - 48)
      else if 97 \<le> n \<and> n \<le> 102 then Some (n - 87)
      else if 65 \<le> n \<and> n \<le> 70 then Some (n - 55)
      else None)"

definition unescape :: "char \<Rightarrow> char option" where
  "unescape e =
     (if e = CHR 0x22 then Some (CHR 0x22)
      else if e = CHR 0x5C then Some (CHR 0x5C)
      else if e = CHR ''/'' then Some (CHR ''/'')
      else if e = CHR ''n'' then Some (CHR 0x0A)
      else if e = CHR ''r'' then Some (CHR 0x0D)
      else if e = CHR ''t'' then Some (CHR 0x09)
      else if e = CHR ''b'' then Some (CHR 0x08)
      else if e = CHR ''f'' then Some (CHR 0x0C)
      else None)"

definition unicode_escape :: "string \<Rightarrow> char option" where
  "unicode_escape hs =
     (case map hex_val hs of
        [Some a, Some b, Some c, Some d] \<Rightarrow>
          (if a = 0 \<and> b = 0 \<and> c < 8 then Some (char_of (16 * c + d)) else None)
      | _ \<Rightarrow> None)"

text \<open>The rest of a string after its opening quote: the characters, and the text after the closing quote.\<close>

fun parse_string :: "string \<Rightarrow> (string \<times> string) option" where
  "parse_string [] = None"
| "parse_string (c # r) =
     (if c = CHR 0x22 then Some ([], r)
      else if c = CHR 0x5C then
        (case r of
           [] \<Rightarrow> None
         | e # r1 \<Rightarrow>
             (if e = CHR ''u'' then
                (case unicode_escape (take 4 r1) of
                   None \<Rightarrow> None
                 | Some ch \<Rightarrow>
                     (case parse_string (drop 4 r1) of
                        None \<Rightarrow> None
                      | Some (s, rest) \<Rightarrow> Some (ch # s, rest)))
              else
                (case unescape e of
                   None \<Rightarrow> None
                 | Some ch \<Rightarrow>
                     (case parse_string r1 of
                        None \<Rightarrow> None
                      | Some (s, rest) \<Rightarrow> Some (ch # s, rest)))))
      else if (of_char c :: nat) < 32 then None
      else (case parse_string r of
              None \<Rightarrow> None
            | Some (s, rest) \<Rightarrow> Some (c # s, rest)))"

definition is_digit :: "char \<Rightarrow> bool" where
  "is_digit c \<longleftrightarrow> digit_val c \<noteq> None"

text \<open>
  An integer: an optional minus sign and digits without a leading zero. A fraction or
  an exponent after the digits would make a floating point number, which is not read.
\<close>

definition float_mark :: "string \<Rightarrow> bool" where
  "float_mark r \<longleftrightarrow> (case r of [] \<Rightarrow> False | c # cs \<Rightarrow> c = CHR ''.'' \<or> c = CHR ''e'' \<or> c = CHR ''E'')"

definition parse_nat :: "string \<Rightarrow> (nat \<times> string) option" where
  "parse_nat s =
     (let ds = takeWhile is_digit s; r = dropWhile is_digit s in
      if ds = [] \<or> (1 < length ds \<and> hd ds = CHR ''0'') \<or> float_mark r then None
      else (case digits_val 0 ds of None \<Rightarrow> None | Some n \<Rightarrow> Some (n, r)))"

definition parse_int :: "string \<Rightarrow> (pyval \<times> string) option" where
  "parse_int s =
     (case s of
        [] \<Rightarrow> None
      | c # r \<Rightarrow>
          (if c = CHR ''-''
           then (case parse_nat r of None \<Rightarrow> None | Some (n, rest) \<Rightarrow> Some (PInt (- int n), rest))
           else (case parse_nat s of None \<Rightarrow> None | Some (n, rest) \<Rightarrow> Some (PInt (int n), rest))))"

definition literal :: "string \<Rightarrow> pyval \<Rightarrow> string \<Rightarrow> (pyval \<times> string) option" where
  "literal word v s = (if take (length word) s = word then Some (v, drop (length word) s) else None)"

fun parse_value :: "nat \<Rightarrow> string \<Rightarrow> (pyval \<times> string) option"
  and parse_items :: "nat \<Rightarrow> string \<Rightarrow> (pyval list \<times> string) option"
  and parse_members :: "nat \<Rightarrow> string \<Rightarrow> ((string \<times> pyval) list \<times> string) option" where
  "parse_value 0 s = None"
| "parse_value (Suc n) s =
     (case skip_ws s of
        [] \<Rightarrow> None
      | c # r \<Rightarrow>
          (if c = CHR ''n'' then literal ''null'' PNone (c # r)
           else if c = CHR ''t'' then literal ''true'' (PBool True) (c # r)
           else if c = CHR ''f'' then literal ''false'' (PBool False) (c # r)
           else if c = CHR 0x22 then
             (case parse_string r of None \<Rightarrow> None | Some (str, rest) \<Rightarrow> Some (PStr str, rest))
           else if c = CHR ''['' then
             (case skip_ws r of
                [] \<Rightarrow> None
              | d # r1 \<Rightarrow>
                  (if d = CHR '']'' then Some (PList [], r1)
                   else (case parse_items n r of
                           None \<Rightarrow> None
                         | Some (xs, rest) \<Rightarrow> Some (PList xs, rest))))
           else if c = CHR ''{'' then
             (case skip_ws r of
                [] \<Rightarrow> None
              | d # r1 \<Rightarrow>
                  (if d = CHR ''}'' then Some (PDict [], r1)
                   else (case parse_members n r of
                           None \<Rightarrow> None
                         | Some (kvs, rest) \<Rightarrow> Some (PDict kvs, rest))))
           else parse_int (c # r)))"
| "parse_items 0 s = None"
| "parse_items (Suc n) s =
     (case parse_value n s of
        None \<Rightarrow> None
      | Some (v, r) \<Rightarrow>
          (case skip_ws r of
             [] \<Rightarrow> None
           | c # r1 \<Rightarrow>
               (if c = CHR '','' then
                  (case parse_items n r1 of
                     None \<Rightarrow> None
                   | Some (vs, rest) \<Rightarrow> Some (v # vs, rest))
                else if c = CHR '']'' then Some ([v], r1)
                else None)))"
| "parse_members 0 s = None"
| "parse_members (Suc n) s =
     (case skip_ws s of
        [] \<Rightarrow> None
      | q # r \<Rightarrow>
          (if q \<noteq> CHR 0x22 then None
           else (case parse_string r of
                   None \<Rightarrow> None
                 | Some (k, r1) \<Rightarrow>
                     (case skip_ws r1 of
                        [] \<Rightarrow> None
                      | c # r2 \<Rightarrow>
                          (if c \<noteq> CHR '':'' then None
                           else (case parse_value n r2 of
                                   None \<Rightarrow> None
                                 | Some (v, r3) \<Rightarrow>
                                     (case skip_ws r3 of
                                        [] \<Rightarrow> None
                                      | d # r4 \<Rightarrow>
                                          (if d = CHR '','' then
                                             (case parse_members n r4 of
                                                None \<Rightarrow> None
                                              | Some (kvs, rest) \<Rightarrow> Some ((k, v) # kvs, rest))
                                           else if d = CHR ''}'' then Some ([(k, v)], r4)
                                           else None))))))))"

definition json_loads :: "string \<Rightarrow> pyval option" where
  "json_loads s =
     (case parse_value (Suc (length s)) s of
        None \<Rightarrow> None
      | Some (v, rest) \<Rightarrow> (if skip_ws rest = [] then Some v else None))"

section \<open>Notions used in the properties\<close>

text \<open>Every column of a frame has as many cells as the frame has rows.\<close>

definition wf_frame :: "frame \<Rightarrow> bool" where
  "wf_frame df \<longleftrightarrow> (\<forall>cells \<in> set (map snd df). length cells = df_len df)"



text \<open>A configuration, an empty world and an environment for the examples.\<close>

definition example_config :: config where
  "example_config = \<lparr> exportar_parquet = True, exportar_csv = False, incr_order_lines = True,
                       incr_payments = True, incr_quotes = True \<rparr>"

definition empty_world :: world where
  "empty_world = \<lparr> state = Map.empty, parquet = Map.empty, csv = Map.empty, log = [] \<rparr>"

definition example_env :: "(query \<Rightarrow> params \<Rightarrow> exn + frame) \<Rightarrow> (string \<times> string \<rightharpoonup> string list) \<Rightarrow> env" where
  "example_env db cat = \<lparr> read_sql = db, catalog = cat, parquet_error = (\<lambda>name df. None),
                           csv_error = (\<lambda>name df. None), py_str = (\<lambda>v. []) \<rparr>"

text \<open>A database that answers every query with one row, and one that fails.\<close>

definition ok_db :: "query \<Rightarrow> params \<Rightarrow> exn + frame" where
  "ok_db q ps = Inr [(''updated_at'', [PTime (2024, 3, 1, 10, 20, 30, 5)]), (''created_at'', [PNone])]"

definition failing_db :: "query \<Rightarrow> params \<Rightarrow> exn + frame" where
  "failing_db q ps = Inl (DatabaseError ''connection lost'')"



text \<open>A database that fails on every query but that of the payments.\<close>

definition payments_only_db :: "query \<Rightarrow> params \<Rightarrow> exn + frame" where
  "payments_only_db q ps =
     (if q_from q = ''oro_payment_transaction_granular t''
      then Inr [(''updated_at'', [PTime (2024, 3, 1, 10, 20, 30, 5)]), (''created_at'', [PNone])]
      else Inl (DatabaseError ''connection lost''))"

text \<open>A database whose answer has no rows, and a world with a watermark on file.\<close>

definition no_rows_db :: "query \<Rightarrow> params \<Rightarrow> exn + frame" where
  "no_rows_db q ps = Inr [(''updated_at'', []), (''created_at'', [])]"

definition stored_world :: world where
  "stored_world = empty_world\<lparr>state := [''fact_pago'' \<mapsto> Json (PDict [(''watermark'', PStr ''2024-03-01 10:20:30'')])]\<rparr>"











text \<open>A row from its columns, for the examples.\<close>

definition mk_row :: "(string \<times> int) list \<Rightarrow> row" where
  "mk_row kvs = map_of kvs"

text \<open>
  A row of the table is picked when it has a key and an id and its id is the least of
  its group.
\<close>

definition is_picked :: "string \<Rightarrow> string \<Rightarrow> row list \<Rightarrow> row \<Rightarrow> bool" where
  "is_picked key idc t a \<longleftrightarrow>
     (\<exists>k i. a key = Some k \<and> a idc = Some i
        \<and> sql_min (map (\<lambda>r. r idc) (filter (\<lambda>r. r key = Some k) t)) = Some i)"

text \<open>The children of a parent value that have an id.\<close>

definition children_of :: "string \<Rightarrow> string \<Rightarrow> row list \<Rightarrow> int option \<Rightarrow> row list" where
  "children_of key idc t v = filter (\<lambda>c. sql_eq (c key) v \<and> c idc \<noteq> None) t"

text \<open>
  A parent with three requests of ids 7, 3 and 9 and a parent without requests; the
  request of id 4 belongs to no parent of the example.
\<close>

definition three_children :: "row list" where
  "three_children =
     [mk_row [(''id'', 7), (''quote_product_id'', 1)], mk_row [(''id'', 3), (''quote_product_id'', 1)],
      mk_row [(''id'', 9), (''quote_product_id'', 1)], mk_row [(''id'', 4), (''quote_product_id'', 5)]]"

definition two_parents :: "row list" where
  "two_parents = [mk_row [(''qp.id'', 1)], mk_row [(''qp.id'', 2)]]"




text \<open>What follows a number in the text does not continue it.\<close>

definition no_cont :: "string \<Rightarrow> bool" where
  "no_cont r \<longleftrightarrow> (case r of [] \<Rightarrow> True | c # cs \<Rightarrow> \<not> is_digit c \<and> \<not> float_mark r)"

text \<open>
  The values that JSON text denotes in this model: \<open>None\<close>, truth values, integers,
  strings, lists and dictionaries of such values; no tuple and no other object.
\<close>

fun json_value :: "pyval \<Rightarrow> bool" where
  "json_value PNone = True"
| "json_value (PBool b) = True"
| "json_value (PInt i) = True"
| "json_value (PStr s) = True"
| "json_value (PList xs) = (\<forall>x \<in> set xs. json_value x)"
| "json_value (PTuple xs) = False"
| "json_value (PDict kvs) = (\<forall>x \<in> set (map snd kvs). json_value x)"
| "json_value (PTime t) = False"
| "json_value (PObj s) = False"

text \<open>Fuel that is enough to read a value back.\<close>

fun fuel :: "pyval \<Rightarrow> nat" where
  "fuel (PList xs) = Suc (sum_list (map (\<lambda>x. Suc (fuel x)) xs))"
| "fuel (PDict kvs) = Suc (sum_list (map (\<lambda>x. Suc (fuel x)) (map snd kvs)))"
| "fuel v = 1"

text \<open>The name the loop gives to a column that \<open>k\<close> equal names precede.\<close>

definition renamed :: "string \<Rightarrow> nat \<Rightarrow> string" where
  "renamed c k = (if k = 0 then c else c @ ''__'' @ str_nat k)"

definition seen_counts :: "(string \<rightharpoonup> nat) \<Rightarrow> string list \<Rightarrow> bool" where
  "seen_counts seen done \<longleftrightarrow>
     (\<forall>c. seen c = (if c \<in> set done then Some (count_list done c - 1) else None))"

text \<open>The output of the loop as a function of the names already processed.\<close>

fun rename_from :: "string list \<Rightarrow> string list \<Rightarrow> string list" where
  "rename_from done [] = []"
| "rename_from done (c # cs) = renamed c (count_list done c) # rename_from (done @ [c]) cs"

section \<open>Properties of the column de-duplication\<close>

lemma seen_counts_empty: "seen_counts Map.empty []"
  by (simp add: seen_counts_def)

lemma count_list_pos: "c \<in> set xs \<Longrightarrow> 0 < count_list xs c"
  by (induction xs) auto

lemma seen_counts_step:
  assumes "seen_counts seen done"
  shows "seen_counts (seen(c \<mapsto> (case seen c of None \<Rightarrow> 0 | Some k \<Rightarrow> k + 1))) (done @ [c])"
proof -
  have pos: "c \<in> set done \<Longrightarrow> 0 < count_list done c"
    by (rule count_list_pos)
  show ?thesis
    using assms pos by (auto simp: seen_counts_def)
qed

lemma make_unique_loop_spec:
  "seen_counts seen done \<Longrightarrow> make_unique_loop seen out cs = out @ rename_from done cs"
proof (induction cs arbitrary: seen out "done")
  case Nil
  then show ?case by simp
next
  case (Cons c cs)
  let ?seen' = "seen(c \<mapsto> (case seen c of None \<Rightarrow> 0 | Some k \<Rightarrow> k + 1))"
  have step: "seen_counts ?seen' (done @ [c])"
    using Cons.prems by (rule seen_counts_step)
  have hd_name: "(case seen c of None \<Rightarrow> c | Some k \<Rightarrow> c @ ''__'' @ str_nat (k + 1))
               = renamed c (count_list done c)"
    using Cons.prems count_list_pos [of c "done"]
    by (auto simp: seen_counts_def renamed_def split: option.splits)
  show ?case
  proof (cases "seen c")
    case None
    from step None have inv: "seen_counts (seen(c \<mapsto> 0)) (done @ [c])" by simp
    from hd_name None have name: "renamed c (count_list done c) = c" by simp
    have "make_unique_loop seen out (c # cs) = make_unique_loop (seen(c \<mapsto> 0)) (out @ [c]) cs"
      using None by simp
    also have "\<dots> = (out @ [c]) @ rename_from (done @ [c]) cs"
      by (rule Cons.IH [OF inv])
    finally show ?thesis by (simp add: name)
  next
    case (Some k)
    let ?n = "c @ ''__'' @ str_nat (k + 1)"
    from step Some have inv: "seen_counts (seen(c \<mapsto> k + 1)) (done @ [c])" by simp
    from hd_name Some have name: "renamed c (count_list done c) = ?n" by simp
    have "make_unique_loop seen out (c # cs) = make_unique_loop (seen(c \<mapsto> k + 1)) (out @ [?n]) cs"
      using Some by simp
    also have "\<dots> = (out @ [?n]) @ rename_from (done @ [c]) cs"
      by (rule Cons.IH [OF inv])
    finally show ?thesis by (simp add: name)
  qed
qed

lemma rename_from_length: "length (rename_from done cs) = length cs"
  by (induction cs arbitrary: "done") simp_all

lemma rename_from_nth:
  "i < length cs \<Longrightarrow>
   rename_from done cs ! i = renamed (cs ! i) (count_list (done @ take i cs) (cs ! i))"
proof (induction cs arbitrary: "done" i)
  case Nil
  then show ?case by simp
next
  case (Cons c cs)
  show ?case
  proof (cases i)
    case 0
    then show ?thesis by simp
  next
    case (Suc j)
    with Cons.prems have "j < length cs" by simp
    from Cons.IH [OF this, of "done @ [c]"] Suc show ?thesis by simp
  qed
qed

lemma make_unique_columns_eq: "make_unique_columns cols = rename_from [] cols"
  unfolding make_unique_columns_def
  using make_unique_loop_spec [OF seen_counts_empty, of "[]" cols] by simp

lemma make_unique_columns_length: "length (make_unique_columns cols) = length cols"
  by (simp add: make_unique_columns_eq rename_from_length)

lemma make_unique_columns_nth:
  "i < length cols \<Longrightarrow>
   make_unique_columns cols ! i = renamed (cols ! i) (count_list (take i cols) (cols ! i))"
  using rename_from_nth [of i cols "[]"] by (simp add: make_unique_columns_eq)

lemma make_unique_columns_first_kept:
  "i < length cols \<Longrightarrow> cols ! i \<notin> set (take i cols) \<Longrightarrow> make_unique_columns cols ! i = cols ! i"
  by (simp add: make_unique_columns_nth renamed_def)

lemma make_unique_columns_duplicate_renamed:
  "i < length cols \<Longrightarrow> count_list (take i cols) (cols ! i) = k \<Longrightarrow> 0 < k \<Longrightarrow>
   make_unique_columns cols ! i = cols ! i @ ''__'' @ str_nat k"
  by (simp add: make_unique_columns_nth renamed_def)

section \<open>Properties of the exporter and of the cycle\<close>

lemma logging_state [simp]: "state (logging l w) = state w"
  by (simp add: logging_def)

lemma logging_parquet [simp]: "parquet (logging l w) = parquet w"
  by (simp add: logging_def)

lemma logging_csv [simp]: "csv (logging l w) = csv w"
  by (simp add: logging_def)

lemma logging_log [simp]: "log (logging l w) = log w @ [l]"
  by (simp add: logging_def)

lemma write_files_state: "state (fst (write_files cfg e name df w)) = state w"
  by (simp add: write_files_def write_parquet_def write_csv_def Let_def split: option.splits prod.splits)

lemma write_files_stateD: "write_files cfg e name df w = (w1, r) \<Longrightarrow> state w1 = state w"
  using write_files_state [of cfg e name df w] by simp

lemma export_table_state: "state (fst (export_table cfg e df name w)) = state w"
  by (auto simp: export_table_def split: sum.splits prod.splits option.splits
      dest: write_files_stateD)

lemma export_table_quotes_state: "state (fst (export_table_quotes cfg e df name w)) = state w"
  by (auto simp: export_table_quotes_def split: sum.splits prod.splits option.splits
      dest: write_files_stateD)

lemma commit_watermark_state:
  "state (commit_watermark name incr wm w) =
     (case wm of None \<Rightarrow> state w
      | Some s \<Rightarrow> if s \<noteq> [] \<and> incr then write_watermark (state w) name s else state w)"
  by (simp add: commit_watermark_def split: option.splits)

lemma try_fact_cases:
  "try_fact export e name incr q ps cols w =
     (case read_sql e q ps of
        Inl x \<Rightarrow> (w, Some x)
      | Inr df \<Rightarrow>
          (case export df name (logging (LogRows (df_len df) (length (df_columns df))) w) of
             (w2, Inl x) \<Rightarrow> (w2, Some x)
           | (w2, Inr df1) \<Rightarrow>
               (case max_timestamp df1 cols of
                  Inl x \<Rightarrow> (w2, Some x)
                | Inr wm \<Rightarrow> (commit_watermark name incr wm w2, None))))"
  by (simp add: try_fact_def)

lemma try_fact_write_after_export:
  assumes ex: "\<And>df w0. state (fst (export df name w0)) = state w0"
    and run: "try_fact export e name incr q ps cols w = (w', r)"
    and ch: "state w' \<noteq> state w"
  shows "\<exists>df w2 df1 s. read_sql e q ps = Inr df
           \<and> export df name (logging (LogRows (df_len df) (length (df_columns df))) w) = (w2, Inr df1)
           \<and> max_timestamp df1 cols = Inr (Some s) \<and> s \<noteq> [] \<and> incr
           \<and> state w' = write_watermark (state w) name s \<and> r = None"
proof (cases "read_sql e q ps")
  case (Inl x)
  with run ch show ?thesis by (simp add: try_fact_def)
next
  case (Inr df)
  let ?w1 = "logging (LogRows (df_len df) (length (df_columns df))) w"
  obtain w2 res where exp: "export df name ?w1 = (w2, res)" by (cases "export df name ?w1")
  from ex [of df ?w1] exp have st2: "state w2 = state w" by simp
  show ?thesis
  proof (cases res)
    case (Inl x)
    with run ch Inr exp st2 show ?thesis by (simp add: try_fact_def)
  next
    case df1: (Inr df1)
    show ?thesis
    proof (cases "max_timestamp df1 cols")
      case (Inl x)
      with run ch Inr exp st2 df1 show ?thesis by (simp add: try_fact_def)
    next
      case wm: (Inr wm)
      with run Inr exp df1 have w': "w' = commit_watermark name incr wm w2" and r: "r = None"
        by (simp_all add: try_fact_def)
      from ch w' st2 obtain s where "wm = Some s" "s \<noteq> []" incr
        by (cases wm) (auto simp: commit_watermark_state split: if_splits)
      with w' st2 r Inr exp df1 wm show ?thesis
        by (auto simp: commit_watermark_state)
    qed
  qed
qed


lemma catch_query_raises:
  "read_sql e q ps = Inl x \<Longrightarrow>
   catch_and_log name (try_fact export e name incr q ps cols w) = logging (LogError name x) w"
  by (simp add: try_fact_def catch_and_log_def)

lemma catch_export_raises:
  "read_sql e q ps = Inr df \<Longrightarrow>
   export df name (logging (LogRows (df_len df) (length (df_columns df))) w) = (w2, Inl x) \<Longrightarrow>
   catch_and_log name (try_fact export e name incr q ps cols w) = logging (LogError name x) w2"
  by (simp add: try_fact_def catch_and_log_def)

lemma catch_state: "state (catch_and_log name (w, r)) = state w"
  by (simp add: catch_and_log_def split: option.splits)

lemma catch_state_change:
  assumes ex: "\<And>df w0. state (fst (export df name w0)) = state w0"
    and ch: "state (catch_and_log name (try_fact export e name incr q ps cols w)) \<noteq> state w"
  shows "\<exists>df w2 df1 s. read_sql e q ps = Inr df
           \<and> export df name (logging (LogRows (df_len df) (length (df_columns df))) w) = (w2, Inr df1)
           \<and> max_timestamp df1 cols = Inr (Some s) \<and> s \<noteq> [] \<and> incr
           \<and> state (catch_and_log name (try_fact export e name incr q ps cols w))
               = write_watermark (state w) name s"
proof -
  obtain w' r where run: "try_fact export e name incr q ps cols w = (w', r)"
    by (cases "try_fact export e name incr q ps cols w")
  with ch have "state w' \<noteq> state w" by (simp add: catch_state)
  from try_fact_write_after_export [OF ex run this] run show ?thesis
    by (auto simp: catch_state)
qed

lemma sanitize_raises_export:
  "\<not> df_empty df \<Longrightarrow> sanitize_dataframe (py_str e) df = Inl x \<Longrightarrow>
   export_table cfg e df name w = (w, Inl x)"
  by (simp add: export_table_def)

lemma sanitize_raises_export_quotes:
  "\<not> df_empty df \<Longrightarrow>
   sanitize_dataframe (py_str e) (rename_columns df (make_unique_columns (df_columns df))) = Inl x \<Longrightarrow>
   export_table_quotes cfg e df name w = (w, Inl x)"
  by (simp add: export_table_quotes_def)

lemma write_raises_export:
  "\<not> df_empty df \<Longrightarrow> sanitize_dataframe (py_str e) df = Inr df1 \<Longrightarrow>
   write_files cfg e name df1 w = (w1, Some x) \<Longrightarrow>
   export_table cfg e df name w = (w1, Inl x)"
  by (simp add: export_table_def)

lemma export_zero_rows:
  "df_len df = 0 \<Longrightarrow> export_table cfg e df name w = (logging (LogNoRows name) w, Inr df)"
  "df_len df = 0 \<Longrightarrow> export_table_quotes cfg e df name w = (logging (LogNoRows name) w, Inr df)"
  by (simp_all add: export_table_def export_table_quotes_def df_empty_def)

lemma map_of_cells: "map_of df c = Some cells \<Longrightarrow> cells \<in> set (map snd df)"
  by (auto dest: map_of_SomeD intro: rev_image_eqI)

lemma max_timestamp_all_null:
  assumes "\<forall>c \<in> set cols. count_list (df_columns df) c \<le> 1"
    and "\<forall>c \<in> set cols. \<forall>cells. map_of df c = Some cells \<longrightarrow> list_all isna cells"
  shows "max_timestamp df cols = Inr None"
  using assms by (induction cols) (auto split: option.splits)

lemma max_timestamp_zero_rows:
  assumes "wf_frame df" "df_len df = 0"
  shows "max_timestamp df cols = Inr None \<or> (\<exists>m. max_timestamp df cols = Inl (ValueError m))"
  using assms
proof (induction cols)
  case Nil
  then show ?case by simp
next
  case (Cons c cols)
  have "map_of df c = Some cells \<Longrightarrow> cells = []" for cells
    using Cons.prems map_of_cells [of df c cells] by (auto simp: wf_frame_def)
  with Cons show ?case by (auto split: option.splits)
qed

lemma run_quote_fact_unfold:
  "run_quote_fact cfg e name q ps last_wm cols w =
     catch_and_log name (try_fact (export_table_quotes cfg e) e name (incr_quotes cfg) q ps cols
       (logging (LogFact name (incr_quotes cfg) last_wm) w))"
  by (simp add: run_quote_fact_def)

lemma read_watermark_access:
  "st n \<noteq> Some NoAccess \<Longrightarrow> \<exists>v. read_watermark st n = Inr v"
  by (cases "st n")
    (auto simp: read_watermark_def path_exists_def split: file_content.splits sum.splits)

lemma run_fact_unfold:
  assumes "read_watermark (state w) name = Inr v"
  shows "run_fact cfg e name base col incr cols w =
         (catch_and_log name
            (try_fact (export_table cfg e) e name incr
               (base (fst (build_where_incremental_facts name col incr v)))
               (fst (snd (build_where_incremental_facts name col incr v))) cols
               (logging (LogFact name incr v) w)),
          None)"
  using assms by (simp add: run_fact_def split: prod.splits)

lemma run_fact_raises:
  "read_watermark (state w) name = Inl x \<Longrightarrow> run_fact cfg e name base col incr cols w = (w, Some x)"
  by (simp add: run_fact_def)

lemma cycle_state_cases:
  assumes ex: "\<And>df w0. state (fst (export df name w0)) = state w0"
  shows "state (catch_and_log name (try_fact export e name incr q ps cols w)) = state w
       \<or> (\<exists>s. state (catch_and_log name (try_fact export e name incr q ps cols w))
                = write_watermark (state w) name s)"
  using catch_state_change [of export name e incr q ps cols w, OF ex] by blast

lemma cycle_state_access:
  assumes ex: "\<And>df w0. state (fst (export df name w0)) = state w0"
    and "state w n \<noteq> Some NoAccess"
  shows "state (catch_and_log name (try_fact export e name incr q ps cols w)) n \<noteq> Some NoAccess"
  using cycle_state_cases [of export name e incr q ps cols w, OF ex] assms(2)
  by (auto simp: write_watermark_def split: if_splits)

lemma run_fact_access:
  assumes "state w n \<noteq> Some NoAccess"
  shows "state (fst (run_fact cfg e name base col incr cols w)) n \<noteq> Some NoAccess"
proof (cases "read_watermark (state w) name")
  case (Inl x)
  with assms show ?thesis by (simp add: run_fact_raises)
next
  case (Inr v)
  have ex: "state (fst (export_table cfg e df name w0)) = state w0" for df w0
    by (rule export_table_state)
  have "state (catch_and_log name
            (try_fact (export_table cfg e) e name incr
               (base (fst (build_where_incremental_facts name col incr v)))
               (fst (snd (build_where_incremental_facts name col incr v))) cols
               (logging (LogFact name incr v) w))) n \<noteq> Some NoAccess"
    by (rule cycle_state_access [where export = "export_table cfg e", OF ex]) (simp add: assms)
  then show ?thesis by (simp add: run_fact_unfold [OF Inr])
qed

lemma run_quote_fact_access:
  assumes "state w n \<noteq> Some NoAccess"
  shows "state (run_quote_fact cfg e name q ps v cols w) n \<noteq> Some NoAccess"
proof -
  have ex: "state (fst (export_table_quotes cfg e df name w0)) = state w0" for df w0
    by (rule export_table_quotes_state)
  have "state (catch_and_log name
            (try_fact (export_table_quotes cfg e) e name (incr_quotes cfg) q ps cols
               (logging (LogFact name (incr_quotes cfg) v) w))) n \<noteq> Some NoAccess"
    by (rule cycle_state_access [where export = "export_table_quotes cfg e", OF ex]) (simp add: assms)
  then show ?thesis by (simp add: run_quote_fact_def)
qed

lemma main_facts_proceeds:
  assumes "state w ''fact_ventas_linea'' \<noteq> Some NoAccess" "state w ''fact_pago'' \<noteq> Some NoAccess"
  shows "main_facts cfg e w =
         (logging LogDone
            (fst (run_fact cfg e ''fact_pago'' Q_FACT_PAGO_BASE ''COALESCE(t.updated_at, t.created_at)''
                    (incr_payments cfg) [''updated_at'', ''created_at'']
                    (fst (run_fact cfg e ''fact_ventas_linea'' Q_FACT_VENTAS_LINEA_BASE ''o.updated_at''
                            (incr_order_lines cfg)
                            [''fecha_actualizacion_pedido'', ''fecha_creacion_pedido''] w)))),
          None)"
proof -
  let ?r1 = "run_fact cfg e ''fact_ventas_linea'' Q_FACT_VENTAS_LINEA_BASE ''o.updated_at''
               (incr_order_lines cfg) [''fecha_actualizacion_pedido'', ''fecha_creacion_pedido''] w"
  from read_watermark_access [where st = "state w" and n = "''fact_ventas_linea''"] assms(1) obtain v1
    where v1: "read_watermark (state w) ''fact_ventas_linea'' = Inr v1" by blast
  have s1: "snd ?r1 = None" by (simp add: run_fact_unfold [OF v1])
  have "state (fst ?r1) ''fact_pago'' \<noteq> Some NoAccess"
    by (rule run_fact_access) (rule assms(2))
  with read_watermark_access [where st = "state (fst ?r1)" and n = "''fact_pago''"] obtain v2
    where v2: "read_watermark (state (fst ?r1)) ''fact_pago'' = Inr v2" by blast
  have s2: "snd (run_fact cfg e ''fact_pago'' Q_FACT_PAGO_BASE ''COALESCE(t.updated_at, t.created_at)''
                    (incr_payments cfg) [''updated_at'', ''created_at''] (fst ?r1)) = None"
    by (simp add: run_fact_unfold [OF v2])
  obtain w1 where r1: "?r1 = (w1, None)"
    using s1 by (cases ?r1) simp
  obtain w2 where r2: "run_fact cfg e ''fact_pago'' Q_FACT_PAGO_BASE ''COALESCE(t.updated_at, t.created_at)''
                    (incr_payments cfg) [''updated_at'', ''created_at''] w1 = (w2, None)"
    using s2 r1
    by (cases "run_fact cfg e ''fact_pago'' Q_FACT_PAGO_BASE ''COALESCE(t.updated_at, t.created_at)''
                    (incr_payments cfg) [''updated_at'', ''created_at''] w1") simp
  show ?thesis
    by (simp add: main_facts_def r1 r2)
qed

lemma quote_header_block_unfold:
  assumes "read_watermark (state w) ''fact_cotizacion'' = Inr v"
    and "build_query_fact_cotizacion e = Inr qh"
  shows "quote_header_block cfg e w =
         (run_quote_fact cfg e ''fact_cotizacion''
            (qh\<lparr>q_where := fst (build_where_incremental ''COALESCE(updated_at, created_at)''
                                   (incr_quotes cfg) v)\<rparr>)
            (fst (snd (build_where_incremental ''COALESCE(updated_at, created_at)'' (incr_quotes cfg) v)))
            v [''updated_at'', ''created_at''] w,
          None)"
  using assms by (simp add: quote_header_block_def split: prod.splits)

lemma quote_lines_block_unfold:
  assumes "read_watermark (state w) ''fact_cotizacion_linea'' = Inr v"
    and "build_query_fact_cotizacion_linea e = Inr ql"
  shows "quote_lines_block cfg e w =
         (run_quote_fact cfg e ''fact_cotizacion_linea''
            (if q_where ql = ''{where_clause_ts}''
             then ql\<lparr>q_where := fst (build_where_incremental ''COALESCE(sq.updated_at, sq.created_at)''
                                        (incr_quotes cfg) v)\<rparr>
             else ql)
            (if q_where ql = ''{where_clause_ts}''
             then fst (snd (build_where_incremental ''COALESCE(sq.updated_at, sq.created_at)''
                              (incr_quotes cfg) v))
             else None)
            v [''sq.updated_at'', ''sq.created_at'', ''updated_at'', ''created_at''] w,
          None)"
  using assms by (simp add: quote_lines_block_def split: prod.splits)

lemma main_quotes_proceeds:
  assumes a1: "state w ''fact_cotizacion'' \<noteq> Some NoAccess"
    and a2: "state w ''fact_cotizacion_linea'' \<noteq> Some NoAccess"
    and qh: "build_query_fact_cotizacion e = Inr qh"
    and ql: "build_query_fact_cotizacion_linea e = Inr ql"
  shows "main_quotes cfg e w =
           (logging LogDone (fst (quote_lines_block cfg e (fst (quote_header_block cfg e w)))), None)
       \<and> (\<exists>v. read_watermark (state w) ''fact_cotizacion'' = Inr v
             \<and> quote_header_block cfg e w =
                 (run_quote_fact cfg e ''fact_cotizacion''
                    (qh\<lparr>q_where := fst (build_where_incremental ''COALESCE(updated_at, created_at)''
                                           (incr_quotes cfg) v)\<rparr>)
                    (fst (snd (build_where_incremental ''COALESCE(updated_at, created_at)''
                                 (incr_quotes cfg) v)))
                    v [''updated_at'', ''created_at''] w,
                  None))
       \<and> (\<exists>v. read_watermark (state (fst (quote_header_block cfg e w))) ''fact_cotizacion_linea'' = Inr v
             \<and> quote_lines_block cfg e (fst (quote_header_block cfg e w)) =
                 (run_quote_fact cfg e ''fact_cotizacion_linea''
                    (if q_where ql = ''{where_clause_ts}''
                     then ql\<lparr>q_where := fst (build_where_incremental
                                                ''COALESCE(sq.updated_at, sq.created_at)''
                                                (incr_quotes cfg) v)\<rparr>
                     else ql)
                    (if q_where ql = ''{where_clause_ts}''
                     then fst (snd (build_where_incremental ''COALESCE(sq.updated_at, sq.created_at)''
                                      (incr_quotes cfg) v))
                     else None)
                    v [''sq.updated_at'', ''sq.created_at'', ''updated_at'', ''created_at'']
                    (fst (quote_header_block cfg e w)),
                  None))"
proof -
  from read_watermark_access [where st = "state w" and n = "''fact_cotizacion''"] a1 obtain v1
    where v1: "read_watermark (state w) ''fact_cotizacion'' = Inr v1" by blast
  note h = quote_header_block_unfold [OF v1 qh, of cfg]
  have "state (fst (quote_header_block cfg e w)) ''fact_cotizacion_linea'' \<noteq> Some NoAccess"
    unfolding h fst_conv by (rule run_quote_fact_access) (rule a2)
  with read_watermark_access [where st = "state (fst (quote_header_block cfg e w))"
      and n = "''fact_cotizacion_linea''"] obtain v2
    where v2: "read_watermark (state (fst (quote_header_block cfg e w))) ''fact_cotizacion_linea'' = Inr v2"
    by blast
  note l = quote_lines_block_unfold [OF v2 ql, of cfg]
  have m: "main_quotes cfg e w =
           (logging LogDone (fst (quote_lines_block cfg e (fst (quote_header_block cfg e w)))), None)"
  proof -
    obtain w1 where r1: "quote_header_block cfg e w = (w1, None)"
      using h by simp
    obtain w2 where r2: "quote_lines_block cfg e w1 = (w2, None)"
      using l r1 by simp
    show ?thesis
      by (simp add: main_quotes_def r1 r2)
  qed
  from m v1 h v2 l show ?thesis by blast
qed

text \<open>
  C2. In the cycle of a fact, of build\_facts.py and of build\_quotes.py alike, the state
  file changes only when the query has returned a frame and the exporter has returned
  without raising, and then to the watermark taken from that frame. When the query
  raises, or the exporter does (the sanitizer is a part of it, in both scripts), the
  exception is logged by the \<open>except\<close> and the state files are as before. The blocks of
  the two scripts are such cycles, and the run goes on to the next target whatever the
  cycle before it did: with state files that can be reached, \<open>main\<close> of
  build\_facts.py is the cycle of the payments run in the world the cycle of the order
  lines left, followed by the closing line of the log, and \<open>main\<close> of
  build\_quotes.py, once both queries are built, is the cycle of the lines run in the
  world the cycle of the header left; neither ends with an exception.
\<close>

theorem watermark_commit_ordering:
  assumes "export = export_table cfg e \<or> export = export_table_quotes cfg e"
  shows
   "(state (catch_and_log name (try_fact export e name incr q ps cols w)) \<noteq> state w \<longrightarrow>
       (\<exists>df w2 df1 s. read_sql e q ps = Inr df
          \<and> export df name (logging (LogRows (df_len df) (length (df_columns df))) w) = (w2, Inr df1)
          \<and> max_timestamp df1 cols = Inr (Some s)
          \<and> state (catch_and_log name (try_fact export e name incr q ps cols w))
               = write_watermark (state w) name s))
    \<and> (\<forall>x. read_sql e q ps = Inl x \<longrightarrow>
          catch_and_log name (try_fact export e name incr q ps cols w) = logging (LogError name x) w)
    \<and> (\<forall>df w2 x. read_sql e q ps = Inr df
          \<and> export df name (logging (LogRows (df_len df) (length (df_columns df))) w) = (w2, Inl x) \<longrightarrow>
          catch_and_log name (try_fact export e name incr q ps cols w) = logging (LogError name x) w2
          \<and> state w2 = state w)
    \<and> (\<forall>df x. \<not> df_empty df \<and> sanitize_dataframe (py_str e) df = Inl x \<longrightarrow>
          export_table cfg e df name w = (w, Inl x))
    \<and> (\<forall>df x. \<not> df_empty df
          \<and> sanitize_dataframe (py_str e) (rename_columns df (make_unique_columns (df_columns df))) = Inl x
          \<longrightarrow> export_table_quotes cfg e df name w = (w, Inl x))
    \<and> (\<forall>v. read_watermark (state w) name = Inr v \<longrightarrow>
          run_fact cfg e name base column incr cols w =
            (catch_and_log name
               (try_fact (export_table cfg e) e name incr
                  (base (fst (build_where_incremental_facts name column incr v)))
                  (fst (snd (build_where_incremental_facts name column incr v))) cols
                  (logging (LogFact name incr v) w)),
             None))
    \<and> run_quote_fact cfg e name q ps last_wm cols w =
        catch_and_log name
          (try_fact (export_table_quotes cfg e) e name (incr_quotes cfg) q ps cols
             (logging (LogFact name (incr_quotes cfg) last_wm) w))
    \<and> (state w ''fact_ventas_linea'' \<noteq> Some NoAccess \<and> state w ''fact_pago'' \<noteq> Some NoAccess \<longrightarrow>
          main_facts cfg e w =
            (logging LogDone
               (fst (run_fact cfg e ''fact_pago'' Q_FACT_PAGO_BASE ''COALESCE(t.updated_at, t.created_at)''
                       (incr_payments cfg) [''updated_at'', ''created_at'']
                       (fst (run_fact cfg e ''fact_ventas_linea'' Q_FACT_VENTAS_LINEA_BASE ''o.updated_at''
                               (incr_order_lines cfg)
                               [''fecha_actualizacion_pedido'', ''fecha_creacion_pedido''] w)))),
             None))
    \<and> (\<forall>qh ql. state w ''fact_cotizacion'' \<noteq> Some NoAccess
          \<and> state w ''fact_cotizacion_linea'' \<noteq> Some NoAccess
          \<and> build_query_fact_cotizacion e = Inr qh \<and> build_query_fact_cotizacion_linea e = Inr ql \<longrightarrow>
          main_quotes cfg e w =
            (logging LogDone (fst (quote_lines_block cfg e (fst (quote_header_block cfg e w)))), None)
          \<and> (\<exists>v. read_watermark (state w) ''fact_cotizacion'' = Inr v
                \<and> quote_header_block cfg e w =
                    (run_quote_fact cfg e ''fact_cotizacion''
                       (qh\<lparr>q_where := fst (build_where_incremental ''COALESCE(updated_at, created_at)''
                                              (incr_quotes cfg) v)\<rparr>)
                       (fst (snd (build_where_incremental ''COALESCE(updated_at, created_at)''
                                    (incr_quotes cfg) v)))
                       v [''updated_at'', ''created_at''] w,
                     None))
          \<and> (\<exists>v. read_watermark (state (fst (quote_header_block cfg e w))) ''fact_cotizacion_linea''
                     = Inr v
                \<and> quote_lines_block cfg e (fst (quote_header_block cfg e w)) =
                    (run_quote_fact cfg e ''fact_cotizacion_linea''
                       (if q_where ql = ''{where_clause_ts}''
                        then ql\<lparr>q_where := fst (build_where_incremental
                                                   ''COALESCE(sq.updated_at, sq.created_at)''
                                                   (incr_quotes cfg) v)\<rparr>
                        else ql)
                       (if q_where ql = ''{where_clause_ts}''
                        then fst (snd (build_where_incremental ''COALESCE(sq.updated_at, sq.created_at)''
                                         (incr_quotes cfg) v))
                        else None)
                       v [''sq.updated_at'', ''sq.created_at'', ''updated_at'', ''created_at'']
                       (fst (quote_header_block cfg e w)),
                     None)))"
    (is "?A \<and> ?B \<and> ?C \<and> ?D \<and> ?D2 \<and> ?E \<and> ?E2 \<and> ?F \<and> ?G")
proof -
  have ex: "state (fst (export df name' w0)) = state w0" for df name' w0
    using assms export_table_state export_table_quotes_state by auto
  have a: ?A
    using catch_state_change [of export name e incr q ps cols w, OF ex] by blast
  have b: ?B
    by (intro allI impI) (rule catch_query_raises)
  have c: ?C
  proof (intro allI impI, elim conjE)
    fix df w2 x
    assume r: "read_sql e q ps = Inr df"
      and x: "export df name (logging (LogRows (df_len df) (length (df_columns df))) w) = (w2, Inl x)"
    from ex [of df name "logging (LogRows (df_len df) (length (df_columns df))) w"] x
    have "state w2 = state w" by simp
    with catch_export_raises [of e q ps df export name w w2 x incr cols, OF r x]
    show "catch_and_log name (try_fact export e name incr q ps cols w) = logging (LogError name x) w2
          \<and> state w2 = state w" by simp
  qed
  have d: ?D
    by (intro allI impI, elim conjE) (rule sanitize_raises_export)
  have d2: ?D2
    by (intro allI impI, elim conjE) (rule sanitize_raises_export_quotes)
  have e: ?E
    by (intro allI impI) (rule run_fact_unfold)
  have e2: ?E2
    by (rule run_quote_fact_unfold)
  have f: ?F
    by (intro impI, elim conjE) (rule main_facts_proceeds)
  have g: ?G
    by (intro allI impI, elim conjE) (rule main_quotes_proceeds)
  from a b c d d2 e e2 f g show ?thesis by (intro conjI)
qed

theorem watermark_commit_ordering_witness:
  "state (catch_and_log ''fact_pago''
            (try_fact (export_table example_config (example_env ok_db Map.empty))
               (example_env ok_db Map.empty) ''fact_pago'' True (Q_FACT_PAGO_BASE []) None
               [''updated_at'', ''created_at''] empty_world)) \<noteq> state empty_world
   \<and> (\<exists>df w2 df1 s. read_sql (example_env ok_db Map.empty) (Q_FACT_PAGO_BASE []) None = Inr df
          \<and> export_table example_config (example_env ok_db Map.empty) df ''fact_pago''
               (logging (LogRows (df_len df) (length (df_columns df))) empty_world) = (w2, Inr df1)
          \<and> max_timestamp df1 [''updated_at'', ''created_at''] = Inr (Some s))
   \<and> read_sql (example_env failing_db Map.empty) (Q_FACT_PAGO_BASE []) None
        = Inl (DatabaseError ''connection lost'')
   \<and> catch_and_log ''fact_pago''
        (try_fact (export_table example_config (example_env failing_db Map.empty))
           (example_env failing_db Map.empty) ''fact_pago'' True (Q_FACT_PAGO_BASE []) None
           [''updated_at'', ''created_at''] empty_world)
      = logging (LogError ''fact_pago'' (DatabaseError ''connection lost'')) empty_world
   \<and> state empty_world ''fact_ventas_linea'' \<noteq> Some NoAccess
   \<and> state empty_world ''fact_pago'' \<noteq> Some NoAccess
   \<and> snd (main_facts example_config (example_env payments_only_db Map.empty) empty_world) = None
   \<and> state (fst (main_facts example_config (example_env payments_only_db Map.empty) empty_world))
        ''fact_ventas_linea'' = None
   \<and> state (fst (main_facts example_config (example_env payments_only_db Map.empty) empty_world))
        ''fact_pago'' = Some (Json (PDict [(''watermark'', PStr ''2024-03-01 10:20:30'')]))
   \<and> map level (log (fst (main_facts example_config (example_env payments_only_db Map.empty) empty_world)))
      = [INFO, ERROR, INFO, INFO, INFO, INFO, INFO]"
proof -
  let ?e = "example_env ok_db Map.empty"
  let ?f = "example_env failing_db Map.empty"
  let ?p = "example_env payments_only_db Map.empty"
  let ?run = "catch_and_log ''fact_pago''
            (try_fact (export_table example_config ?e) ?e ''fact_pago'' True (Q_FACT_PAGO_BASE []) None
               [''updated_at'', ''created_at''] empty_world)"
  let ?main = "logging LogDone
     (fst (run_fact example_config ?p ''fact_pago'' Q_FACT_PAGO_BASE ''COALESCE(t.updated_at, t.created_at)''
             (incr_payments example_config) [''updated_at'', ''created_at'']
             (fst (run_fact example_config ?p ''fact_ventas_linea'' Q_FACT_VENTAS_LINEA_BASE ''o.updated_at''
                     (incr_order_lines example_config)
                     [''fecha_actualizacion_pedido'', ''fecha_creacion_pedido''] empty_world))))"
  have "state ?run ''fact_pago'' = Some (Json (PDict [(''watermark'', PStr ''2024-03-01 10:20:30'')]))"
    by code_simp
  moreover have "state empty_world ''fact_pago'' = None"
    by (simp add: empty_world_def)
  ultimately have ch: "state ?run \<noteq> state empty_world"
    by (metis option.distinct(1))
  have fl: "read_sql ?f (Q_FACT_PAGO_BASE []) None = Inl (DatabaseError ''connection lost'')"
    by (simp add: example_env_def failing_db_def)
  have acc: "state empty_world ''fact_ventas_linea'' \<noteq> Some NoAccess"
      "state empty_world ''fact_pago'' \<noteq> Some NoAccess"
    by (simp_all add: empty_world_def)
  note t1 = watermark_commit_ordering [where export = "export_table example_config ?e"
        and cfg = example_config and e = ?e and name = "''fact_pago''" and incr = True
        and q = "Q_FACT_PAGO_BASE []" and ps = None and cols = "[''updated_at'', ''created_at'']"
        and w = empty_world, OF disjI1 [OF refl]]
  note t2 = watermark_commit_ordering [where export = "export_table example_config ?f"
        and cfg = example_config and e = ?f and name = "''fact_pago''" and incr = True
        and q = "Q_FACT_PAGO_BASE []" and ps = None and cols = "[''updated_at'', ''created_at'']"
        and w = empty_world, OF disjI1 [OF refl]]
  note t3 = watermark_commit_ordering [where export = "export_table example_config ?p"
        and cfg = example_config and e = ?p and w = empty_world, OF disjI1 [OF refl]]
  from t1 [THEN conjunct1, THEN mp, OF ch]
  have ex: "\<exists>df w2 df1 s. read_sql ?e (Q_FACT_PAGO_BASE []) None = Inr df
          \<and> export_table example_config ?e df ''fact_pago''
               (logging (LogRows (df_len df) (length (df_columns df))) empty_world) = (w2, Inr df1)
          \<and> max_timestamp df1 [''updated_at'', ''created_at''] = Inr (Some s)"
    by blast
  note lg = t2 [THEN conjunct2, THEN conjunct1, THEN spec, THEN mp, OF fl]
  have m: "main_facts example_config ?p empty_world = (?main, None)"
    using t3 [THEN conjunct2, THEN conjunct2, THEN conjunct2, THEN conjunct2, THEN conjunct2,
        THEN conjunct2, THEN conjunct2, THEN conjunct1] acc
    by blast
  have m1: "state ?main ''fact_ventas_linea'' = None"
    by code_simp
  have m2: "state ?main ''fact_pago'' = Some (Json (PDict [(''watermark'', PStr ''2024-03-01 10:20:30'')]))"
    by code_simp
  have m3: "map level (log ?main) = [INFO, ERROR, INFO, INFO, INFO, INFO, INFO]"
    by code_simp
  from ch ex fl lg acc m m1 m2 m3 show ?thesis by simp
qed

lemma cycle_zero_rows:
  assumes wf: "wf_frame df" and z: "df_len df = 0" and r: "read_sql e q ps = Inr df"
    and ex: "export df name (logging (LogRows (df_len df) (length (df_columns df))) w)
             = (logging (LogNoRows name) (logging (LogRows (df_len df) (length (df_columns df))) w), Inr df)"
  shows "state (catch_and_log name (try_fact export e name incr q ps cols w)) = state w
       \<and> parquet (catch_and_log name (try_fact export e name incr q ps cols w)) = parquet w
       \<and> csv (catch_and_log name (try_fact export e name incr q ps cols w)) = csv w"
proof -
  from max_timestamp_zero_rows [OF wf z, of cols]
  consider "max_timestamp df cols = Inr None" | m where "max_timestamp df cols = Inl (ValueError m)"
    by blast
  then show ?thesis
  proof cases
    case 1
    with r ex z show ?thesis
      by (simp add: try_fact_def catch_and_log_def commit_watermark_def)
  next
    case 2
    with r ex z show ?thesis
      by (simp add: try_fact_def catch_and_log_def)
  qed
qed

text \<open>
  C4. For a result frame without rows the exporter of either script writes nothing: it
  logs one line, a warning, and returns, and the parquet and csv files are as before.
  \<open>max_timestamp\<close> returns \<open>None\<close> on such a frame, and on any frame whose timestamp
  columns hold missing values only (the labels of these columns occurring once);
  without a watermark nothing is committed; and after the whole cycle the state files,
  the parquet files and the csv files are those before it.
\<close>

theorem empty_result_no_op:
  assumes "wf_frame df" and "df_len df = 0" and "read_sql e q ps = Inr df"
    and "export = export_table cfg e \<or> export = export_table_quotes cfg e"
  shows "export df name w0 = (logging (LogNoRows name) w0, Inr df)
    \<and> level (LogNoRows name) = WARNING
    \<and> parquet (fst (export df name w0)) = parquet w0
    \<and> csv (fst (export df name w0)) = csv w0
    \<and> ((\<forall>c \<in> set cols. count_list (df_columns df) c \<le> 1) \<longrightarrow> max_timestamp df cols = Inr None)
    \<and> ((\<forall>c \<in> set cols. count_list (df_columns dfn) c \<le> 1)
         \<and> (\<forall>c \<in> set cols. \<forall>cells. map_of dfn c = Some cells \<longrightarrow> list_all isna cells)
         \<longrightarrow> max_timestamp dfn cols = Inr None)
    \<and> commit_watermark name incr None w0 = w0
    \<and> state (catch_and_log name (try_fact export e name incr q ps cols w)) = state w
    \<and> parquet (catch_and_log name (try_fact export e name incr q ps cols w)) = parquet w
    \<and> csv (catch_and_log name (try_fact export e name incr q ps cols w)) = csv w"
proof -
  have ex: "export df name w1 = (logging (LogNoRows name) w1, Inr df)" for w1
    using assms(2,4) export_zero_rows by auto
  have m1: "(\<forall>c \<in> set cols. count_list (df_columns df) c \<le> 1) \<longrightarrow> max_timestamp df cols = Inr None"
  proof
    assume d: "\<forall>c \<in> set cols. count_list (df_columns df) c \<le> 1"
    have "map_of df c = Some cells \<Longrightarrow> cells = []" for c cells
      using assms(1,2) map_of_cells [of df c cells] by (auto simp: wf_frame_def)
    then have "\<forall>c \<in> set cols. \<forall>cells. map_of df c = Some cells \<longrightarrow> list_all isna cells"
      by fastforce
    with d show "max_timestamp df cols = Inr None" by (rule max_timestamp_all_null)
  qed
  have m2: "(\<forall>c \<in> set cols. count_list (df_columns dfn) c \<le> 1)
         \<and> (\<forall>c \<in> set cols. \<forall>cells. map_of dfn c = Some cells \<longrightarrow> list_all isna cells)
         \<longrightarrow> max_timestamp dfn cols = Inr None"
    using max_timestamp_all_null [of cols dfn] by blast
  note run = cycle_zero_rows [where export = export and name = name and w = w and incr = incr
      and cols = cols, OF assms(1,2,3) ex]
  have c: "commit_watermark name incr None w0 = w0"
    by (simp add: commit_watermark_def)
  have lv: "level (LogNoRows name) = WARNING" by simp
  from ex [of w0] lv m1 m2 c run show ?thesis by simp
qed

theorem empty_result_no_op_witness:
  "wf_frame [(''updated_at'', []), (''created_at'', [])]
   \<and> df_len [(''updated_at'', []), (''created_at'', [])] = 0
   \<and> read_sql (example_env no_rows_db Map.empty) (Q_FACT_PAGO_BASE ''WHERE t.updated_at > %(wm)s'')
        (Some [(''wm'', PStr ''2024-03-01 10:20:30'')]) = Inr [(''updated_at'', []), (''created_at'', [])]
   \<and> export_table example_config (example_env no_rows_db Map.empty)
        [(''updated_at'', []), (''created_at'', [])] ''fact_pago'' stored_world
       = (logging (LogNoRows ''fact_pago'') stored_world, Inr [(''updated_at'', []), (''created_at'', [])])
   \<and> max_timestamp [(''updated_at'', []), (''created_at'', [])] [''updated_at'', ''created_at''] = Inr None
   \<and> state (catch_and_log ''fact_pago''
        (try_fact (export_table example_config (example_env no_rows_db Map.empty))
           (example_env no_rows_db Map.empty) ''fact_pago'' True
           (Q_FACT_PAGO_BASE ''WHERE t.updated_at > %(wm)s'')
           (Some [(''wm'', PStr ''2024-03-01 10:20:30'')]) [''updated_at'', ''created_at''] stored_world))
       = state stored_world"
proof -
  let ?df = "[(''updated_at'', []), (''created_at'', [])] :: frame"
  let ?e = "example_env no_rows_db Map.empty"
  have wf: "wf_frame ?df" by (simp add: wf_frame_def df_len_def)
  have z: "df_len ?df = 0" by (simp add: df_len_def)
  have r: "read_sql ?e (Q_FACT_PAGO_BASE ''WHERE t.updated_at > %(wm)s'')
        (Some [(''wm'', PStr ''2024-03-01 10:20:30'')]) = Inr ?df"
    by (simp add: example_env_def no_rows_db_def)
  have d: "\<forall>c \<in> set [''updated_at'', ''created_at'']. count_list (df_columns ?df) c \<le> 1"
    by (simp add: df_columns_def)
  note t = empty_result_no_op [where export = "export_table example_config ?e" and cfg = example_config
      and name = "''fact_pago''" and cols = "[''updated_at'', ''created_at'']" and w0 = stored_world
      and w = stored_world and incr = True and dfn = ?df,
      OF wf z r disjI1 [OF refl]]
  from t d wf z r show ?thesis by simp
qed

section \<open>Properties of the incremental predicate\<close>

lemma last_word_append:
  assumes "CHR '' '' \<notin> set w"
  shows "last_word (a @ CHR '' '' # w) = (a, w)"
proof -
  have p: "\<And>x. x \<in> set (rev w) \<Longrightarrow> x \<noteq> CHR '' ''"
    using assms by auto
  have t: "takeWhile (\<lambda>c. c \<noteq> CHR '' '') (rev w @ CHR '' '' # rev a) = rev w"
    using takeWhile_append2 [of "rev w" "\<lambda>c. c \<noteq> CHR '' ''" "CHR '' '' # rev a"] p by simp
  have d: "dropWhile (\<lambda>c. c \<noteq> CHR '' '') (rev w @ CHR '' '' # rev a) = CHR '' '' # rev a"
    using dropWhile_append2 [of "rev w" "\<lambda>c. c \<noteq> CHR '' ''" "CHR '' '' # rev a"] p by simp
  show ?thesis
    by (simp add: last_word_def t d)
qed

lemma clause_parts_built:
  "clause_parts (''WHERE '' @ column @ '' > %(wm)s'') = Some (column, ''>'', ''wm'')"
proof -
  have a: "''WHERE '' @ column @ '' > %(wm)s'' = (''WHERE '' @ column @ '' >'') @ CHR '' '' # ''%(wm)s''"
    by simp
  have b: "''WHERE '' @ column @ '' >'' = (''WHERE '' @ column) @ CHR '' '' # ''>''"
    by simp
  have l1: "last_word (''WHERE '' @ column @ '' > %(wm)s'') = (''WHERE '' @ column @ '' >'', ''%(wm)s'')"
    unfolding a by (rule last_word_append) simp
  have l2: "last_word (''WHERE '' @ column @ '' >'') = (''WHERE '' @ column, ''>'')"
    unfolding b by (rule last_word_append) simp
  show ?thesis
    unfolding clause_parts_def l1 prod.case l2 by simp
qed

lemma where_admits_built:
  "where_admits (''WHERE '' @ column @ '' > %(wm)s'', Some [(''wm'', PStr wm)], used) val
     \<longleftrightarrow> (\<exists>t0 t. parse_wm wm = Some t0 \<and> val column = Some t \<and> t0 < t)"
proof -
  have "where_admits (''WHERE '' @ column @ '' > %(wm)s'', Some [(''wm'', PStr wm)], used) val
        = (case (parse_wm wm, val column) of (Some t0, Some t) \<Rightarrow> t0 < t | _ \<Rightarrow> False)"
    unfolding where_admits_def prod.case clause_parts_built
    by (simp add: sql_compare_def split: option.splits)
  then show ?thesis
    by (cases "parse_wm wm"; cases "val column") (simp_all del: split_paired_Ex)
qed

lemma where_admits_incremental:
  assumes "parse_wm w1 = Some t1"
  shows "where_admits (build_where_incremental column True (PStr w1)) val
           \<longleftrightarrow> (\<exists>t. val column = Some t \<and> t1 < t)"
proof -
  from assms have "w1 \<noteq> []" by (auto simp: parse_wm_def)
  then have b: "build_where_incremental column True (PStr w1)
             = (''WHERE '' @ column @ '' > %(wm)s'', Some [(''wm'', PStr w1)], True)"
    by (simp add: build_where_incremental_def)
  show ?thesis
    unfolding b where_admits_built using assms by (simp del: split_paired_Ex)
qed

lemma commit_then_read:
  assumes "state (commit_watermark name incr wm w) \<noteq> state w"
  shows "\<exists>s. wm = Some s \<and> s \<noteq> []
           \<and> read_watermark (state (commit_watermark name incr wm w)) name = Inr (PStr s)"
  using assms
  by (cases wm)
    (auto simp: commit_watermark_def read_watermark_def path_exists_def write_watermark_def
      read_watermark_body_def dict_get_def split: if_splits)

text \<open>
  C3. The strict predicate \<open>WHERE <column> > %(wm)s\<close>, with the last watermark bound
  to \<open>wm\<close>, is returned if and only if incremental mode is on and a last watermark is
  there, which the code tests as the truth of \<open>last_wm\<close>; with incremental mode off,
  and with it on and no last watermark, the clause is empty and there are no parameters.
  No watermark, \<open>None\<close>, is what reading a missing state file gives, and it is not
  true; a watermark the program has committed is read back as a text that is not empty,
  and is true. Both scripts' functions agree. The database, reading the clause that was
  built, passes a row exactly when its value of the column is later than the watermark,
  so a row at the watermark itself is not returned again.
\<close>

theorem build_where_incremental_policy:
  "(incr_enabled \<and> truthy last_wm \<longrightarrow>
      build_where_incremental column incr_enabled last_wm
        = (''WHERE '' @ column @ '' > %(wm)s'', Some [(''wm'', last_wm)], True))
   \<and> (\<not> incr_enabled \<longrightarrow>
      build_where_incremental column incr_enabled last_wm = ([], None, False))
   \<and> (incr_enabled \<and> \<not> truthy last_wm \<longrightarrow>
      build_where_incremental column incr_enabled last_wm = ([], None, False))
   \<and> (fst (build_where_incremental column incr_enabled last_wm) \<noteq> [] \<longleftrightarrow>
        incr_enabled \<and> truthy last_wm)
   \<and> build_where_incremental_facts fact_name column incr_enabled last_wm
        = build_where_incremental column incr_enabled last_wm
   \<and> \<not> truthy PNone
   \<and> (st fact_name = None \<longrightarrow>
        read_watermark st fact_name = Inr PNone
        \<and> build_where_incremental column True PNone = ([], None, False))
   \<and> (state (commit_watermark fact_name incr new_wm w) \<noteq> state w \<longrightarrow>
        (\<exists>s. read_watermark (state (commit_watermark fact_name incr new_wm w)) fact_name = Inr (PStr s)
           \<and> truthy (PStr s)
           \<and> build_where_incremental column True (PStr s)
                = (''WHERE '' @ column @ '' > %(wm)s'', Some [(''wm'', PStr s)], True)))
   \<and> (parse_wm wm = Some t0 \<longrightarrow>
        (where_admits (build_where_incremental column True (PStr wm)) val
           \<longleftrightarrow> (\<exists>t. val column = Some t \<and> t0 < t))
        \<and> (val column = Some t0 \<longrightarrow>
              \<not> where_admits (build_where_incremental column True (PStr wm)) val))"
    (is "?A \<and> ?B \<and> ?C \<and> ?D \<and> ?E \<and> ?F \<and> ?G \<and> ?H \<and> ?I")
proof -
  have a: ?A by (simp add: build_where_incremental_def)
  have b: ?B by (simp add: build_where_incremental_def)
  have c: ?C by (simp add: build_where_incremental_def)
  have d: ?D by (simp add: build_where_incremental_def)
  have e: ?E by (simp add: build_where_incremental_def build_where_incremental_facts_def)
  have f: ?F by simp
  have g: ?G by (simp add: read_watermark_def path_exists_def build_where_incremental_def)
  have h: ?H
  proof
    assume "state (commit_watermark fact_name incr new_wm w) \<noteq> state w"
    from commit_then_read [OF this] obtain s where s: "s \<noteq> []"
      "read_watermark (state (commit_watermark fact_name incr new_wm w)) fact_name = Inr (PStr s)"
      by blast
    then show "\<exists>s. read_watermark (state (commit_watermark fact_name incr new_wm w)) fact_name = Inr (PStr s)
           \<and> truthy (PStr s)
           \<and> build_where_incremental column True (PStr s)
                = (''WHERE '' @ column @ '' > %(wm)s'', Some [(''wm'', PStr s)], True)"
      by (simp add: build_where_incremental_def)
  qed
  have i: ?I
  proof
    assume p: "parse_wm wm = Some t0"
    show "(where_admits (build_where_incremental column True (PStr wm)) val
           \<longleftrightarrow> (\<exists>t. val column = Some t \<and> t0 < t))
        \<and> (val column = Some t0 \<longrightarrow>
              \<not> where_admits (build_where_incremental column True (PStr wm)) val)"
      unfolding where_admits_incremental [OF p] by simp
  qed
  from a b c d e f g h i show ?thesis by (intro conjI)
qed

theorem build_where_incremental_policy_witness:
  "truthy (PStr ''2024-03-01 10:20:30'')
   \<and> build_where_incremental ''o.updated_at'' True (PStr ''2024-03-01 10:20:30'')
        = (''WHERE o.updated_at > %(wm)s'', Some [(''wm'', PStr ''2024-03-01 10:20:30'')], True)
   \<and> build_where_incremental ''o.updated_at'' False (PStr ''2024-03-01 10:20:30'') = ([], None, False)
   \<and> state empty_world ''fact_pago'' = None
   \<and> build_where_incremental ''o.updated_at'' True PNone = ([], None, False)
   \<and> state (commit_watermark ''fact_pago'' True (Some ''2024-03-01 10:20:30'') empty_world)
        \<noteq> state empty_world
   \<and> read_watermark (state (commit_watermark ''fact_pago'' True (Some ''2024-03-01 10:20:30'') empty_world))
        ''fact_pago'' = Inr (PStr ''2024-03-01 10:20:30'')
   \<and> parse_wm ''2024-03-01 10:20:30'' = Some (2024, 3, 1, 10, 20, 30, 0)
   \<and> \<not> where_admits (build_where_incremental ''o.updated_at'' True (PStr ''2024-03-01 10:20:30''))
          (\<lambda>x. Some (2024, 3, 1, 10, 20, 30, 0))
   \<and> where_admits (build_where_incremental ''o.updated_at'' True (PStr ''2024-03-01 10:20:30''))
          (\<lambda>x. Some (2024, 3, 1, 10, 20, 30, 1))"
proof -
  let ?w = "commit_watermark ''fact_pago'' True (Some ''2024-03-01 10:20:30'') empty_world"
  have p: "parse_wm ''2024-03-01 10:20:30'' = Some (2024, 3, 1, 10, 20, 30, 0)"
    by code_simp
  have t: "truthy (PStr ''2024-03-01 10:20:30'')" by simp
  have n: "state empty_world ''fact_pago'' = None" by (simp add: empty_world_def)
  have "state ?w ''fact_pago'' \<noteq> None"
    by (simp add: commit_watermark_def write_watermark_def)
  with n have ch: "state ?w \<noteq> state empty_world" by metis
  have rd: "read_watermark (state ?w) ''fact_pago'' = Inr (PStr ''2024-03-01 10:20:30'')"
    by (simp add: commit_watermark_def write_watermark_def read_watermark_def path_exists_def
        read_watermark_body_def dict_get_def)
  have lt: "((2024, 3, 1, 10, 20, 30, 0) :: timestamp) < (2024, 3, 1, 10, 20, 30, 1)"
    by (simp add: less_prod_def)
  note t1 = build_where_incremental_policy [where incr_enabled = True
      and last_wm = "PStr ''2024-03-01 10:20:30''" and column = "''o.updated_at''"
      and st = "state empty_world" and fact_name = "''fact_pago''" and incr = True
      and new_wm = "Some ''2024-03-01 10:20:30''" and w = empty_world
      and wm = "''2024-03-01 10:20:30''" and ?t0.0 = "(2024, 3, 1, 10, 20, 30, 0)"
      and val = "\<lambda>x. Some (2024, 3, 1, 10, 20, 30, 0)"]
  note t2 = build_where_incremental_policy [where incr_enabled = False
      and last_wm = "PStr ''2024-03-01 10:20:30''" and column = "''o.updated_at''"
      and wm = "''2024-03-01 10:20:30''" and ?t0.0 = "(2024, 3, 1, 10, 20, 30, 0)"
      and val = "\<lambda>x. Some (2024, 3, 1, 10, 20, 30, 1)"]
  from t1 t have c1: "build_where_incremental ''o.updated_at'' True (PStr ''2024-03-01 10:20:30'')
        = (''WHERE o.updated_at > %(wm)s'', Some [(''wm'', PStr ''2024-03-01 10:20:30'')], True)"
    by simp
  from t2 have c2: "build_where_incremental ''o.updated_at'' False (PStr ''2024-03-01 10:20:30'')
        = ([], None, False)"
    by simp
  from t1 n have c3: "build_where_incremental ''o.updated_at'' True PNone = ([], None, False)"
    by blast
  from t1 p have c4: "\<not> where_admits (build_where_incremental ''o.updated_at'' True
        (PStr ''2024-03-01 10:20:30'')) (\<lambda>x. Some (2024, 3, 1, 10, 20, 30, 0))"
    by blast
  from t2 p lt have c5: "where_admits (build_where_incremental ''o.updated_at'' True
        (PStr ''2024-03-01 10:20:30'')) (\<lambda>x. Some (2024, 3, 1, 10, 20, 30, 1))"
    by blast
  from t c1 c2 n c3 ch rd p c4 c5 show ?thesis by (intro conjI)
qed

section \<open>Properties of the watermark store\<close>




section \<open>Properties of the query builders and of the inventory snapshot\<close>


lemma pick_Some: "pick cols cands = Some c \<Longrightarrow> c \<in> set cands \<and> c \<in> set cols"
  by (induction cands) (auto split: if_splits)








lemma num_add_null [simp]: "num_add a PNone = PNone" "num_add PNone b = PNone"
  by (cases a; simp) (cases b; simp)

lemma to_numeric_nulls: "map to_numeric (replicate n PNone) = replicate n PNone"
  by simp


















section \<open>Properties of the child pick\<close>

lemma sql_min_None: "sql_min vs = None \<longleftrightarrow> (\<forall>v \<in> set vs. v = None)"
  by (induction vs rule: sql_min.induct) (auto split: option.splits)

lemma sql_min_Some:
  "sql_min vs = Some m \<Longrightarrow> Some m \<in> set vs \<and> (\<forall>v. Some v \<in> set vs \<longrightarrow> m \<le> v)"
proof (induction vs arbitrary: m rule: sql_min.induct)
  case 1
  then show ?case by simp
next
  case (2 vs)
  then show ?case by simp
next
  case (3 v vs)
  show ?case
  proof (cases "sql_min vs")
    case None
    with 3 sql_min_None [of vs] show ?thesis by auto
  next
    case (Some m')
    with 3 show ?thesis by (auto simp: min_def split: if_splits)
  qed
qed

lemma filter_map_key:
  assumes "distinct ks"
  shows "filter (\<lambda>m. fst m = k \<and> Q (snd m)) (map (\<lambda>k. (k, f k)) ks)
         = (if k \<in> set ks \<and> Q (f k) then [(k, f k)] else [])"
  using assms by (induction ks) auto

lemma group_min_filter:
  assumes "a \<in> set t"
  shows "filter (\<lambda>m. sql_eq (fst m) (a key) \<and> sql_eq (snd m) (a idc)) (group_min key idc t)
         = (if is_picked key idc t a
            then [(a key, sql_min (map (\<lambda>r. r idc) (filter (\<lambda>r. r key = a key) t)))] else [])"
proof (cases "a key")
  case None
  then show ?thesis by (simp add: sql_eq_def is_picked_def split: option.splits)
next
  case (Some k)
  have eq: "(\<lambda>m. sql_eq (fst m) (a key) \<and> sql_eq (snd m) (a idc))
          = (\<lambda>m. fst m = Some k \<and> sql_eq (snd m) (a idc))"
    using Some by (auto simp: sql_eq_def fun_eq_iff split: option.splits)
  have mem: "Some k \<in> set (remdups (map (\<lambda>r. r key) t))"
    using assms Some by (auto intro: rev_image_eqI)
  have p: "is_picked key idc t a \<longleftrightarrow>
           sql_eq (sql_min (map (\<lambda>r. r idc) (filter (\<lambda>r. r key = Some k) t))) (a idc)"
    using Some by (auto simp: is_picked_def sql_eq_def split: option.splits)
  show ?thesis
    unfolding group_min_def eq
    using filter_map_key [of "remdups (map (\<lambda>r. r key) t)" "Some k" "\<lambda>v. sql_eq v (a idc)"
        "\<lambda>k. sql_min (map (\<lambda>r. r idc) (filter (\<lambda>r. r key = k) t))"] mem p Some
    by simp
qed

lemma concat_if_filter: "concat (map (\<lambda>a. if P a then [a] else []) t) = filter P t"
  by (induction t) simp_all

lemma min_id_rows_filter: "min_id_rows key idc t = filter (is_picked key idc t) t"
proof -
  have "map (\<lambda>a. map (\<lambda>m. a)
                (filter (\<lambda>m. sql_eq (fst m) (a key) \<and> sql_eq (snd m) (a idc)) (group_min key idc t))) t
      = map (\<lambda>a. if is_picked key idc t a then [a] else []) t"
    by (rule map_cong [OF refl]) (simp add: group_min_filter)
  then show ?thesis
    by (simp only: min_id_rows_def concat_if_filter)
qed

lemma filter_same_id:
  assumes "distinct (map f xs)" "x \<in> set xs"
  shows "filter (\<lambda>y. f y = f x) xs = [x]"
  using assms
proof (induction xs)
  case Nil
  then show ?case by simp
next
  case (Cons y ys)
  show ?case
  proof (cases "x = y")
    case True
    with Cons.prems have "\<forall>z \<in> set ys. f z \<noteq> f y" by (auto intro: rev_image_eqI)
    then have "filter (\<lambda>z. f z = f y) ys = []" by (simp add: filter_empty_conv)
    with True show ?thesis by simp
  next
    case False
    with Cons.prems have x: "x \<in> set ys" and d: "distinct (map f ys)" by simp_all
    from Cons.prems x have "f y \<noteq> f x" by (auto intro: rev_image_eqI)
    with Cons.IH [OF d x] show ?thesis by simp
  qed
qed

lemma picked_for_parent:
  assumes d: "distinct (map (\<lambda>r. r idc) t)"
  shows "(children_of key idc t v = [] \<longrightarrow>
            filter (\<lambda>c. sql_eq (c key) v) (min_id_rows key idc t) = [])
       \<and> (children_of key idc t v \<noteq> [] \<longrightarrow>
            (\<exists>x i. x \<in> set (children_of key idc t v) \<and> x idc = Some i
               \<and> (\<forall>y j. y \<in> set (children_of key idc t v) \<and> y idc = Some j \<longrightarrow> i \<le> j)
               \<and> filter (\<lambda>c. sql_eq (c key) v) (min_id_rows key idc t) = [x]))"
proof (cases v)
  case None
  then show ?thesis by (simp add: children_of_def sql_eq_def split: option.splits)
next
  case (Some k)
  let ?G = "filter (\<lambda>r. r key = Some k) t"
  let ?m = "sql_min (map (\<lambda>r. r idc) ?G)"
  have keyeq: "sql_eq (c key) v \<longleftrightarrow> c key = Some k" for c
    using Some by (auto simp: sql_eq_def split: option.splits)
  have co: "children_of key idc t v = filter (\<lambda>c. c idc \<noteq> None) ?G"
    by (simp add: children_of_def keyeq conj_commute)
  have sel: "filter (\<lambda>c. sql_eq (c key) v) (min_id_rows key idc t)
           = filter (\<lambda>c. c key = Some k \<and> (\<exists>i. c idc = Some i \<and> ?m = Some i)) t"
    by (auto simp: min_id_rows_filter keyeq is_picked_def intro: filter_cong)
  show ?thesis
  proof (cases ?m)
    case None
    then have "\<forall>c \<in> set ?G. c idc = None" by (auto simp: sql_min_None)
    then have "children_of key idc t v = []" by (auto simp: co filter_empty_conv)
    moreover have "filter (\<lambda>c. sql_eq (c key) v) (min_id_rows key idc t) = []"
      by (simp add: sel None)
    ultimately show ?thesis by simp
  next
    case (Some i)
    from sql_min_Some [OF Some] obtain x where x: "x \<in> set ?G" "x idc = Some i"
      and least: "\<And>j. Some j \<in> set (map (\<lambda>r. r idc) ?G) \<Longrightarrow> i \<le> j" by auto
    from x have xin: "x \<in> set (children_of key idc t v)" by (simp add: co)
    have xt: "x \<in> set t" and xk: "x key = Some k" using x by simp_all
    have same: "(c key = Some k \<and> (\<exists>i'. c idc = Some i' \<and> ?m = Some i')) \<longleftrightarrow> c idc = x idc"
      if "c \<in> set t" for c
    proof
      assume "c key = Some k \<and> (\<exists>i'. c idc = Some i' \<and> ?m = Some i')"
      with Some x show "c idc = x idc" by auto
    next
      assume e: "c idc = x idc"
      from d that xt e have "c = x"
        by (metis (mono_tags, lifting) distinct_map inj_onD)
      with x xk Some show "c key = Some k \<and> (\<exists>i'. c idc = Some i' \<and> ?m = Some i')" by simp
    qed
    have "filter (\<lambda>c. sql_eq (c key) v) (min_id_rows key idc t) = filter (\<lambda>c. c idc = x idc) t"
      unfolding sel by (rule filter_cong [OF refl]) (rule same)
    also have "\<dots> = [x]" using filter_same_id [OF d xt] .
    finally have res: "filter (\<lambda>c. sql_eq (c key) v) (min_id_rows key idc t) = [x]" .
    have "\<forall>y j. y \<in> set (children_of key idc t v) \<and> y idc = Some j \<longrightarrow> i \<le> j"
    proof (intro allI impI)
      fix y j assume "y \<in> set (children_of key idc t v) \<and> y idc = Some j"
      then have "Some j \<in> set (map (\<lambda>r. r idc) ?G)" by (auto simp: co intro: rev_image_eqI)
      then show "i \<le> j" by (rule least)
    qed
    then have "\<exists>x i. x \<in> set (children_of key idc t v) \<and> x idc = Some i
               \<and> (\<forall>y j. y \<in> set (children_of key idc t v) \<and> y idc = Some j \<longrightarrow> i \<le> j)
               \<and> filter (\<lambda>c. sql_eq (c key) v) (min_id_rows key idc t) = [x]"
      using xin x(2) res by (intro exI [of _ x] exI [of _ i]) simp
    moreover from xin have "children_of key idc t v \<noteq> []" by auto
    ultimately show ?thesis by simp
  qed
qed


lemma left_join_single:
  "left_join_on (p # ps) parent key cs = left_join_on [p] parent key cs @ left_join_on ps parent key cs"
  by (simp add: left_join_on_def)

lemma min_id_left_join_one:
  assumes d: "distinct (map (\<lambda>r. r idc) t)"
  shows "\<exists>c. min_id_left_join [p] parent key idc t = [(p, c)]
           \<and> (case c of
                 None \<Rightarrow> children_of key idc t (p parent) = []
               | Some x \<Rightarrow> x \<in> set (children_of key idc t (p parent))
                   \<and> (\<exists>i. x idc = Some i
                        \<and> (\<forall>y j. y \<in> set (children_of key idc t (p parent)) \<and> y idc = Some j \<longrightarrow> i \<le> j)))"
proof (cases "children_of key idc t (p parent) = []")
  case True
  with picked_for_parent [OF d, of key "p parent"]
  have "filter (\<lambda>c. sql_eq (c key) (p parent)) (min_id_rows key idc t) = []" by simp
  then have "min_id_left_join [p] parent key idc t = [(p, None)]"
    by (simp add: min_id_left_join_def left_join_on_def)
  with True show ?thesis by simp
next
  case False
  with picked_for_parent [OF d, of key "p parent"]
  obtain x i where x: "x \<in> set (children_of key idc t (p parent))" "x idc = Some i"
    and least: "\<forall>y j. y \<in> set (children_of key idc t (p parent)) \<and> y idc = Some j \<longrightarrow> i \<le> j"
    and f: "filter (\<lambda>c. sql_eq (c key) (p parent)) (min_id_rows key idc t) = [x]"
    by blast
  from f have "min_id_left_join [p] parent key idc t = [(p, Some x)]"
    by (simp add: min_id_left_join_def left_join_on_def)
  with x least show ?thesis by simp
qed

lemma min_id_left_join_all:
  assumes d: "distinct (map (\<lambda>r. r idc) t)"
  shows "map fst (min_id_left_join parents parent key idc t) = parents
       \<and> (\<forall>pc \<in> set (min_id_left_join parents parent key idc t).
            case snd pc of
              None \<Rightarrow> children_of key idc t (fst pc parent) = []
            | Some x \<Rightarrow> x \<in> set (children_of key idc t (fst pc parent))
                \<and> (\<exists>i. x idc = Some i
                     \<and> (\<forall>y j. y \<in> set (children_of key idc t (fst pc parent)) \<and> y idc = Some j
                            \<longrightarrow> i \<le> j)))"
proof (induction parents)
  case Nil
  show ?case by (simp add: min_id_left_join_def left_join_on_def)
next
  case (Cons p ps)
  from min_id_left_join_one [OF d, of p parent key] obtain c
    where one: "min_id_left_join [p] parent key idc t = [(p, c)]"
      and c: "case c of
                 None \<Rightarrow> children_of key idc t (p parent) = []
               | Some x \<Rightarrow> x \<in> set (children_of key idc t (p parent))
                   \<and> (\<exists>i. x idc = Some i
                        \<and> (\<forall>y j. y \<in> set (children_of key idc t (p parent)) \<and> y idc = Some j \<longrightarrow> i \<le> j))"
    by blast
  have split: "min_id_left_join (p # ps) parent key idc t
             = (p, c) # min_id_left_join ps parent key idc t"
    using one left_join_single [of p ps parent key "min_id_rows key idc t"]
    by (simp add: min_id_left_join_def)
  from Cons.IH c show ?case
    unfolding split by (simp cong: option.case_cong)
qed

section \<open>Properties of the watermark rendering\<close>

lemma digit_val_digit_char: "d < 10 \<Longrightarrow> digit_val (digit_char d) = Some d"
  by (simp add: digit_val_def digit_char_def Let_def)

lemma str_nat_1: "n < 10 \<Longrightarrow> str_nat n = [digit_char n]"
  by (simp add: str_nat.simps)




































section \<open>The watermark never moves backward\<close>




lemma max_timestamp_out_of_bounds:
  "max_timestamp [(''updated_at'', [PTime (9999, 12, 31, 0, 0, 0, 0)]),
                  (''created_at'', [PTime (2020, 1, 1, 0, 0, 0, 0)])] [''updated_at'', ''created_at'']
     = Inr (Some ''2020-01-01 00:00:00'')"
  by code_simp



section \<open>Reading back what the serialiser writes\<close>

lemma of_char_char_of: "n < 256 \<Longrightarrow> (of_char (char_of (n::nat)) :: nat) = n"
  by (simp add: of_char_of)

lemma hex_val_hex_digit: "d < 16 \<Longrightarrow> hex_val (hex_digit d) = Some d"
  by (auto simp: hex_val_def hex_digit_def Let_def of_char_char_of)

lemma unicode_escape_control:
  assumes "(of_char c :: nat) < 32"
  shows "unicode_escape [CHR ''0'', CHR ''0'', hex_digit ((of_char c :: nat) div 16),
                         hex_digit ((of_char c :: nat) mod 16)] = Some c"
proof -
  let ?n = "of_char c :: nat"
  have h0: "hex_val (CHR ''0'') = Some 0" by (simp add: hex_val_def)
  have hi: "?n div 16 < 16" "?n div 16 < 8" using assms by auto
  have lo: "?n mod 16 < 16" by simp
  have "16 * (?n div 16) + ?n mod 16 = ?n" by simp
  then have "char_of (16 * (?n div 16) + ?n mod 16) = c" by simp
  then show ?thesis
    using hi by (simp add: unicode_escape_def h0 hex_val_hex_digit [OF hi(1)] hex_val_hex_digit [OF lo])
qed

lemma parse_string_escape:
  "parse_string (escape_char c @ r)
     = (case parse_string r of None \<Rightarrow> None | Some (s, rest) \<Rightarrow> Some (c # s, rest))"
proof -
  consider (special) "c \<in> {CHR 0x22, CHR 0x5C, CHR 0x0A, CHR 0x0D, CHR 0x09, CHR 0x08, CHR 0x0C}"
    | (control) "c \<notin> {CHR 0x22, CHR 0x5C, CHR 0x0A, CHR 0x0D, CHR 0x09, CHR 0x08, CHR 0x0C}"
        "(of_char c :: nat) < 32"
    | (plain) "c \<notin> {CHR 0x22, CHR 0x5C, CHR 0x0A, CHR 0x0D, CHR 0x09, CHR 0x08, CHR 0x0C}"
        "\<not> (of_char c :: nat) < 32"
    by blast
  then show ?thesis
  proof cases
    case special
    then show ?thesis
      by (auto simp: escape_char_def unescape_def split: option.splits)
  next
    case control
    then show ?thesis
      using unicode_escape_control [OF control(2)]
      by (simp add: escape_char_def split: option.splits)
  next
    case plain
    then show ?thesis
      by (simp add: escape_char_def split: option.splits)
  qed
qed

lemma parse_string_body:
  "parse_string (concat (map escape_char s) @ CHR 0x22 # rest) = Some (s, rest)"
proof (induction s)
  case Nil
  show ?case by simp
next
  case (Cons c s)
  have "parse_string (concat (map escape_char (c # s)) @ CHR 0x22 # rest)
      = parse_string (escape_char c @ (concat (map escape_char s) @ CHR 0x22 # rest))"
    by simp
  also have "\<dots> = Some (c # s, rest)"
    by (simp only: parse_string_escape Cons.IH) simp
  finally show ?case .
qed

lemma json_string_parse:
  "json_string s @ rest = CHR 0x22 # (concat (map escape_char s) @ CHR 0x22 # rest)"
  by (simp add: json_string_def)

lemma is_digit_digit_char: "d < 10 \<Longrightarrow> is_digit (digit_char d)"
  by (simp add: is_digit_def digit_val_digit_char)

lemma digit_char_not_zero: "0 < d \<Longrightarrow> d < 10 \<Longrightarrow> digit_char d \<noteq> CHR ''0''"
proof
  assume d: "0 < d" "d < 10" and e: "digit_char d = CHR ''0''"
  have a: "digit_val (digit_char d) = Some d" using d by (simp add: digit_val_digit_char)
  have b: "digit_val (CHR ''0'') = Some 0" by (simp add: digit_val_def)
  from a b e d show False by simp
qed

lemma str_nat_digits: "list_all is_digit (str_nat n)"
proof (induction n rule: str_nat.induct)
  case (1 n)
  show ?case
  proof (cases "n < 10")
    case True
    then show ?thesis by (simp add: str_nat_1 is_digit_digit_char)
  next
    case False
    with 1 have "list_all is_digit (str_nat (n div 10))" by simp
    with False show ?thesis
      by (subst str_nat.simps) (simp add: is_digit_digit_char)
  qed
qed

lemma str_nat_nonempty: "str_nat n \<noteq> []"
  by (subst str_nat.simps) simp

lemma digits_val_append:
  "digits_val acc (xs @ ys) = (case digits_val acc xs of None \<Rightarrow> None | Some a \<Rightarrow> digits_val a ys)"
  by (induction xs arbitrary: acc) (auto split: option.splits)

lemma digits_val_str_nat: "digits_val 0 (str_nat n) = Some n"
proof (induction n rule: str_nat.induct)
  case (1 n)
  show ?case
  proof (cases "n < 10")
    case True
    then show ?thesis by (simp add: str_nat_1 digit_val_digit_char)
  next
    case False
    with 1 have ih: "digits_val 0 (str_nat (n div 10)) = Some (n div 10)" by simp
    have "str_nat n = str_nat (n div 10) @ [digit_char (n mod 10)]"
      using False by (subst str_nat.simps) simp
    then show ?thesis
      by (simp add: digits_val_append ih digit_val_digit_char)
  qed
qed

lemma str_nat_no_leading_zero: "1 < length (str_nat n) \<Longrightarrow> hd (str_nat n) \<noteq> CHR ''0''"
proof (induction n rule: str_nat.induct)
  case (1 n)
  show ?case
  proof (cases "n < 10")
    case True
    with 1(2) show ?thesis by (simp add: str_nat_1)
  next
    case False
    have e: "str_nat n = str_nat (n div 10) @ [digit_char (n mod 10)]"
      using False by (subst str_nat.simps) simp
    have hd: "hd (str_nat n) = hd (str_nat (n div 10))"
      by (simp add: e str_nat_nonempty)
    show ?thesis
    proof (cases "n div 10 < 10")
      case True
      moreover from False have "0 < n div 10" by simp
      ultimately show ?thesis by (simp add: hd str_nat_1 digit_char_not_zero)
    next
      case b: False
      then have "1 < length (str_nat (n div 10))"
        by (subst str_nat.simps) (simp add: str_nat_nonempty Suc_lessI)
      with 1(1) False show ?thesis by (simp add: hd)
    qed
  qed
qed

lemma takeWhile_digits: "no_cont r \<Longrightarrow> takeWhile is_digit (str_nat n @ r) = str_nat n"
  using str_nat_digits [of n]
  by (cases r) (simp_all add: no_cont_def takeWhile_append2 list_all_iff)

lemma dropWhile_digits: "no_cont r \<Longrightarrow> dropWhile is_digit (str_nat n @ r) = r"
  using str_nat_digits [of n]
  by (cases r) (simp_all add: no_cont_def dropWhile_append2 list_all_iff)

lemma no_cont_float: "no_cont r \<Longrightarrow> \<not> float_mark r"
  by (cases r) (simp_all add: no_cont_def float_mark_def)

lemma parse_nat_str_nat: "no_cont r \<Longrightarrow> parse_nat (str_nat n @ r) = Some (n, r)"
  using str_nat_no_leading_zero [of n]
  by (auto simp: parse_nat_def Let_def takeWhile_digits dropWhile_digits str_nat_nonempty
      digits_val_str_nat no_cont_float)

lemma is_digit_not_minus: "is_digit c \<Longrightarrow> c \<noteq> CHR ''-''"
  by (auto simp: is_digit_def digit_val_def Let_def)

lemma str_nat_hd_digit: "is_digit (hd (str_nat n))"
  using str_nat_digits [of n] str_nat_nonempty [of n] by (cases "str_nat n") simp_all

lemma parse_int_str_int: "no_cont r \<Longrightarrow> parse_int (str_int i @ r) = Some (PInt i, r)"
proof (cases "i < 0")
  case True
  assume "no_cont r"
  with True show ?thesis
    by (simp add: parse_int_def str_int_def parse_nat_str_nat)
next
  case False
  assume nc: "no_cont r"
  obtain c cs where s: "str_nat (nat i) = c # cs"
    using str_nat_nonempty [of "nat i"] by (cases "str_nat (nat i)") auto
  with str_nat_hd_digit [of "nat i"] have "c \<noteq> CHR ''-''" by (auto dest: is_digit_not_minus)
  moreover have "parse_nat (c # cs @ r) = Some (nat i, r)"
    using parse_nat_str_nat [OF nc, of "nat i"] s by simp
  ultimately show ?thesis
    using False by (simp add: parse_int_def str_int_def s)
qed

end
